theory Spec2Isabelle
  imports Main "HOL-Library.Word"
begin

section \<open>Data model of the Dozy firmware (src/dozy.ino)\<close>

text \<open>
  The firmware is one translation unit of global variables and the functions \<open>setup()\<close>,
  \<open>loop()\<close> and their helpers. The globals become one record; every function becomes a
  function from the record to the record. \<open>unsigned long\<close> and \<open>int\<close> are 32 bits wide
  on the ESP8285, so the millisecond counter and everything subtracted from it are
  32-bit words: subtraction wraps exactly as in the source.

  Whatever the firmware asks of its libraries (WiFiManager, PubSubClient, ArduinoOTA,
  Ticker, the ESP core) is recorded, in order, in a history of calls. The history also
  records each entry into \<open>mqttCommunicate\<close> and \<open>startWifiManager\<close>, so that a request
  can be told from its effect.
\<close>

type_synonym u32 = "32 word"

datatype event =
    MqttCommunicate bool bool  \<comment> \<open>\<open>mqttCommunicate()\<close> entered with \<open>lState\<close>, \<open>gpioTrigger\<close>\<close>
  | Publish string             \<comment> \<open>\<open>mqttClient.publish(mqttOutTopic, msg, true)\<close>\<close>
  | StartWifiManager bool      \<comment> \<open>\<open>startWifiManager(onDemand)\<close> entered\<close>
  | StartConfigPortal          \<comment> \<open>\<open>wifiManager.startConfigPortal\<close>\<close>
  | AutoConnect                \<comment> \<open>\<open>wifiManager.autoConnect\<close>\<close>
  | StopConfigPortal           \<comment> \<open>\<open>wifiManager.stopConfigPortal\<close>\<close>
  | WmProcess                  \<comment> \<open>\<open>wifiManager.process\<close>\<close>
  | SaveConfig                 \<comment> \<open>the write of \<open>/config.json\<close>\<close>
  | TickerAttach nat           \<comment> \<open>\<open>ledTicker.attach_ms\<close>\<close>
  | OtaBegin                   \<comment> \<open>\<open>ArduinoOTA.begin\<close>\<close>
  | OtaHandle                  \<comment> \<open>\<open>ArduinoOTA.handle\<close>\<close>
  | SetServer                  \<comment> \<open>mDNS search and \<open>mqttClient.setServer\<close>\<close>
  | MdnsLoop                   \<comment> \<open>\<open>mDnsResolver.loop\<close>\<close>
  | Connect                    \<comment> \<open>\<open>mqttClient.connect\<close>\<close>
  | Subscribe                  \<comment> \<open>\<open>mqttClient.subscribe(mqttInTopic)\<close>\<close>
  | ClientLoop                 \<comment> \<open>\<open>mqttClient.loop\<close>\<close>
  | DelayMs nat                \<comment> \<open>\<open>delay\<close>\<close>
  | EspRestart                 \<comment> \<open>\<open>ESP.restart\<close>\<close>

text \<open>
  A pin is \<open>True\<close> when its level is HIGH. The relay closes on HIGH; both LEDs are lit
  on LOW. \<open>mqttConnected\<close> is what \<open>mqttClient.connected()\<close> answers; the firmware
  changes it only by a successful connect. \<open>manualSetupModeCounter\<close> is an \<open>int\<close> that
  the source only increments, resets and compares with 5; it is kept as a 32-bit word.
  The MQTT strings of the configuration are not part of the record: no function
  modelled here branches on them.
\<close>

record dozy =
  offline :: bool
  wifiManagerSetupRunning :: bool
  wifiManagerSetupStart :: u32
  otaRunning :: bool
  otaStart :: u32
  restart :: bool
  mqttConnectAttempt :: u32
  mqttConnectDelay :: u32
  momentarySwitch :: bool
  sState :: bool
  lState :: bool
  gpioTrigger :: bool
  manualSetupActivatorTime :: u32
  manualSetupModeCounter :: u32
  relayPin :: bool
  ledGreenPin :: bool
  ledRedPin :: bool
  mqttConnected :: bool
  trace :: "event list"

text \<open>The constants of the source.\<close>

definition CONFIG_TIMEOUT_MS :: u32 where
  "CONFIG_TIMEOUT_MS = 300000"

definition OTA_TIMEOUT_MS :: u32 where
  "OTA_TIMEOUT_MS = 300000"

definition LOOP_DELAY_MS :: nat where
  "LOOP_DELAY_MS = 10"

definition MANUAL_SETUP_MAX_DELAY_MS :: u32 where
  "MANUAL_SETUP_MAX_DELAY_MS = 500"

definition MANUAL_SETUP_COUNTER :: u32 where
  "MANUAL_SETUP_COUNTER = 5"

definition CMD_ON :: string where
  "CMD_ON = ''1''"

definition CMD_OFF :: string where
  "CMD_OFF = ''0''"

definition CMD_SETUP :: string where
  "CMD_SETUP = ''set''"

definition CMD_OTA :: string where
  "CMD_OTA = ''ota''"

definition CMD_RESET :: string where
  "CMD_RESET = ''rst''"

definition emit :: "event \<Rightarrow> dozy \<Rightarrow> dozy" where
  "emit e s = s\<lparr>trace := trace s @ [e]\<rparr>"

section \<open>Relay and state publication\<close>

text \<open>
  \<open>mqttMsg\<close> is the C string built in \<open>mqttCommunicate\<close>: the state digit, then a dot
  when \<open>gpioTrigger\<close> is set.
\<close>

definition mqttMsg :: "bool \<Rightarrow> bool \<Rightarrow> string" where
  "mqttMsg l g = (if l then CHR ''1'' else CHR ''0'') # (if g then ''.'' else [])"

definition mqttCommunicate :: "dozy \<Rightarrow> dozy" where
  "mqttCommunicate s0 =
     (let s = emit (MqttCommunicate (lState s0) (gpioTrigger s0)) s0 in
      if \<not> offline s \<and> mqttConnected s
      then emit (Publish (mqttMsg (lState s) (gpioTrigger s))) (s\<lparr>gpioTrigger := False\<rparr>)
      else s)"

definition enableL :: "dozy \<Rightarrow> dozy" where
  "enableL s = mqttCommunicate (s\<lparr>relayPin := True, ledGreenPin := False, lState := True\<rparr>)"

definition disableL :: "dozy \<Rightarrow> dozy" where
  "disableL s = mqttCommunicate (s\<lparr>relayPin := False, ledGreenPin := True, lState := False\<rparr>)"

section \<open>Provisioning (WiFiManager) entry and exit\<close>

text \<open>
  \<open>wifiManagerSetupStarted\<close> is the callback registered with \<open>setAPCallback\<close>; its
  argument is what \<open>millis()\<close> returns inside it.
\<close>

definition wifiManagerSetupStarted :: "u32 \<Rightarrow> dozy \<Rightarrow> dozy" where
  "wifiManagerSetupStarted t s =
     (emit (TickerAttach 1000) s)\<lparr>wifiManagerSetupRunning := True, wifiManagerSetupStart := t\<rparr>"

definition wifiManagerSetupStopped :: "dozy \<Rightarrow> dozy" where
  "wifiManagerSetupStopped s = s\<lparr>restart := True\<rparr>"

text \<open>
  \<open>saveParamsCallback\<close>, registered with \<open>setSaveParamsCallback\<close>; its argument is the
  value of the \<open>momentary_switch\<close> form field. The MQTT strings it copies are not part of
  the state modelled here.
\<close>

definition saveParamsCallback :: "string \<Rightarrow> dozy \<Rightarrow> dozy" where
  "saveParamsCallback v s =
     wifiManagerSetupStopped (emit SaveConfig (s\<lparr>momentarySwitch := (v = ''true'')\<rparr>))"

text \<open>
  \<open>startWifiManager onDemand cfg apcb\<close>. \<open>cfg\<close> is the \<open>momentary_switch\<close> entry of the
  configuration file, \<open>None\<close> when the file or the key is missing. The library calls the
  access-point callback from inside \<open>startConfigPortal\<close> and \<open>autoConnect\<close> when it
  opens the portal: \<open>apcb\<close> is \<open>Some t\<close> when it does, with \<open>t\<close> the clock at that moment,
  and \<open>None\<close> when it does not.
\<close>

definition startWifiManager :: "bool \<Rightarrow> string option \<Rightarrow> u32 option \<Rightarrow> dozy \<Rightarrow> dozy" where
  "startWifiManager onDemand cfg apcb s0 =
     (let s = emit (StartWifiManager onDemand) s0 in
      if wifiManagerSetupRunning s then s
      else
        let s1 = (if \<not> onDemand
                  then (case cfg of
                          None \<Rightarrow> s
                        | Some v \<Rightarrow> if v \<noteq> [] then s\<lparr>momentarySwitch := (v = ''true'')\<rparr> else s)
                  else s);
            s2 = emit (if onDemand then StartConfigPortal else AutoConnect) s1
        in (case apcb of None \<Rightarrow> s2 | Some t \<Rightarrow> wifiManagerSetupStarted t s2))"

section \<open>Switch input and the setup gesture\<close>

text \<open>
  \<open>gpioLoop\<close> in three parts, as the source has them: the read of the switch, the
  reaction of the relay, and the counting of quick transitions. \<open>swLow\<close> is
  \<open>digitalRead(SWITCH) == LOW\<close>. \<open>t1\<close> and \<open>t2\<close> are the two readings of \<open>millis()\<close>,
  the first for the delay and the second for the time stamp.
\<close>

definition sChanged :: "bool \<Rightarrow> dozy \<Rightarrow> bool" where
  "sChanged swLow s = (if swLow then sState s = False else sState s = True)"

definition switchAction :: "dozy \<Rightarrow> dozy" where
  "switchAction s0 =
     (let s = s0\<lparr>gpioTrigger := True\<rparr> in
      if momentarySwitch s then
        (if sState s then (if lState s then disableL s else enableL s)
         else mqttCommunicate s)
      else mqttCommunicate (if lState s then disableL s else enableL s))"

definition gestureAction :: "u32 \<Rightarrow> u32 option \<Rightarrow> u32 \<Rightarrow> dozy \<Rightarrow> dozy" where
  "gestureAction t1 apcb t2 s0 =
     (let manualSetupActivatorDelay = t1 - manualSetupActivatorTime s0;
          s1 = (if manualSetupActivatorDelay < MANUAL_SETUP_MAX_DELAY_MS then
                  (let s = s0\<lparr>manualSetupModeCounter := manualSetupModeCounter s0 + 1\<rparr> in
                   if manualSetupModeCounter s = MANUAL_SETUP_COUNTER
                   then startWifiManager True None apcb s else s)
                else s0\<lparr>manualSetupModeCounter := 0\<rparr>)
      in s1\<lparr>manualSetupActivatorTime := t2\<rparr>)"

definition gpioLoop :: "bool \<Rightarrow> u32 \<Rightarrow> u32 option \<Rightarrow> u32 \<Rightarrow> dozy \<Rightarrow> dozy" where
  "gpioLoop swLow t1 apcb t2 s0 =
     (let changed = sChanged swLow s0;
          s1 = s0\<lparr>sState := swLow\<rparr>;
          s2 = (if changed then switchAction s1 else s1)
      in if changed then gestureAction t1 apcb t2 s2 else s2)"

section \<open>Commands received over MQTT\<close>

text \<open>
  The payload is copied into a buffer of ten bytes: at most nine bytes, cut at the
  first NUL, as \<open>strncpy\<close> and the \<open>String\<close> constructor do.
\<close>

definition payloadCopy :: "string \<Rightarrow> string" where
  "payloadCopy payload = takeWhile (\<lambda>c. c \<noteq> CHR 0x00) (take 9 payload)"

definition startsWith :: "string \<Rightarrow> string \<Rightarrow> bool" where
  "startsWith s p = (length p \<le> length s \<and> take (length p) s = p)"

definition otaCommand :: "u32 \<Rightarrow> dozy \<Rightarrow> dozy" where
  "otaCommand t s =
     emit OtaBegin (emit (TickerAttach 300) (s\<lparr>otaStart := t, otaRunning := True\<rparr>))"

definition mqttCallback :: "string \<Rightarrow> u32 option \<Rightarrow> u32 \<Rightarrow> dozy \<Rightarrow> dozy" where
  "mqttCallback payload apcb t s0 =
     (let cmd = payloadCopy payload;
          s1 = (if startsWith cmd CMD_SETUP then startWifiManager True None apcb s0 else s0);
          s2 = (if startsWith cmd CMD_RESET then s1\<lparr>restart := True\<rparr> else s1);
          s3 = (if startsWith cmd CMD_OTA then otaCommand t s2 else s2);
          s4 = (if startsWith cmd CMD_ON then enableL s3 else s3)
      in if startsWith cmd CMD_OFF then disableL s4 else s4)"

section \<open>The MQTT session\<close>

text \<open>
  \<open>mqttReconnect t1 t2 ok\<close>: \<open>t1\<close> and \<open>t2\<close> are its two readings of \<open>millis()\<close>, \<open>ok\<close> is
  the answer of \<open>mqttClient.connect\<close>.
\<close>

definition mqttReconnect :: "u32 \<Rightarrow> u32 \<Rightarrow> bool \<Rightarrow> dozy \<Rightarrow> bool \<times> dozy" where
  "mqttReconnect t1 t2 ok s0 =
     (if \<not> mqttConnected s0 then
        (if t1 - mqttConnectAttempt s0 > mqttConnectDelay s0 then
           (let d = mqttConnectDelay s0 + 1000;
                s1 = s0\<lparr>mqttConnectDelay := (if d > 60000 then 60000 else d)\<rparr>;
                s2 = emit Connect (s1\<lparr>mqttConnectAttempt := t2\<rparr>)
            in if ok
               then (True, (emit Subscribe (s2\<lparr>mqttConnected := True\<rparr>))\<lparr>mqttConnectDelay := 0\<rparr>)
               else (False, s2))
         else (False, s0))
      else (False, s0))"

text \<open>
  \<open>mqttClient.loop()\<close> hands the messages it reads to \<open>mqttCallback\<close>. A message is
  its payload with the two environment answers \<open>mqttCallback\<close> may need. PubSubClient
  reads at most one message in a call of \<open>loop()\<close>; the model takes a list of any
  length, and nothing proved below depends on the length.
\<close>

type_synonym message = "string \<times> u32 option \<times> u32"

definition deliver :: "message \<Rightarrow> dozy \<Rightarrow> dozy" where
  "deliver m s = (case m of (p, apcb, t) \<Rightarrow> mqttCallback p apcb t s)"

definition clientLoop :: "message list \<Rightarrow> dozy \<Rightarrow> dozy" where
  "clientLoop ms s = fold deliver ms (emit ClientLoop s)"

definition mqttLoop :: "u32 \<Rightarrow> u32 \<Rightarrow> bool \<Rightarrow> message list \<Rightarrow> dozy \<Rightarrow> dozy" where
  "mqttLoop t1 t2 ok ms s =
     (if \<not> mqttConnected s then
        (case mqttReconnect t1 t2 ok s of
           (False, s') \<Rightarrow> s'
         | (True, s') \<Rightarrow> clientLoop ms s')
      else clientLoop ms s)"

section \<open>WiFi and provisioning service\<close>

text \<open>
  \<open>wifimanagerLoop saved t wifiUp\<close>: \<open>saved\<close> is \<open>Some v\<close> when \<open>wifiManager.process()\<close>
  runs \<open>saveParamsCallback\<close> (the form was saved), \<open>t\<close> is the reading of \<open>millis()\<close>,
  \<open>wifiUp\<close> is \<open>WiFi.status() == WL_CONNECTED\<close>.
\<close>

definition wifimanagerLoop :: "string option \<Rightarrow> u32 \<Rightarrow> bool \<Rightarrow> dozy \<Rightarrow> dozy" where
  "wifimanagerLoop saved t wifiUp s0 =
     (let s1 = emit WmProcess s0;
          s2 = (case saved of None \<Rightarrow> s1 | Some v \<Rightarrow> saveParamsCallback v s1);
          s3 = (if wifiManagerSetupRunning s2 then
                  (if t - wifiManagerSetupStart s2 > CONFIG_TIMEOUT_MS
                   then wifiManagerSetupStopped (emit StopConfigPortal s2)
                   else s2)
                else (if offline s2 then s2\<lparr>ledRedPin := False\<rparr> else s2\<lparr>ledRedPin := True\<rparr>));
          s4 = (if wifiUp
                then (if offline s3 then emit SetServer s3 else s3)\<lparr>offline := False\<rparr>
                else s3\<lparr>offline := True\<rparr>)
      in if \<not> offline s4 then emit MdnsLoop s4 else s4)"

definition ledTick :: "dozy \<Rightarrow> dozy" where
  "ledTick s = s\<lparr>ledRedPin := \<not> ledRedPin s\<rparr>"

section \<open>Firmware update service\<close>

text \<open>
  The progress callback registered in \<open>setup()\<close>; \<open>ArduinoOTA.handle()\<close> runs it \<open>n\<close>
  times, once for each block it received.
\<close>

definition otaProgress :: "dozy \<Rightarrow> dozy" where
  "otaProgress s =
     (if ledRedPin s then s\<lparr>ledRedPin := False, ledGreenPin := True\<rparr>
      else s\<lparr>ledRedPin := True, ledGreenPin := False\<rparr>)"

definition otaHandle :: "nat \<Rightarrow> dozy \<Rightarrow> dozy" where
  "otaHandle n s = (otaProgress ^^ n) (emit OtaHandle s)"

section \<open>Start and the control loop\<close>

text \<open>
  \<open>setup_dozy\<close> is \<open>setup()\<close> of the source, whose name is an Isabelle keyword.
  \<open>power_on\<close> holds the globals as the C++ start-up code leaves them: the declared
  initial values, zero for the rest, and the output latches of the pins LOW.
\<close>

definition power_on :: dozy where
  "power_on =
     \<lparr>offline = True, wifiManagerSetupRunning = False, wifiManagerSetupStart = 0,
      otaRunning = False, otaStart = 0, restart = False,
      mqttConnectAttempt = 0, mqttConnectDelay = 0, momentarySwitch = False,
      sState = False, lState = False, gpioTrigger = False,
      manualSetupActivatorTime = 0, manualSetupModeCounter = 0,
      relayPin = False, ledGreenPin = False, ledRedPin = False,
      mqttConnected = False, trace = []\<rparr>"

definition setup_dozy :: "bool \<Rightarrow> string option \<Rightarrow> u32 option \<Rightarrow> dozy \<Rightarrow> dozy" where
  "setup_dozy swLow cfg apcb s =
     startWifiManager False cfg apcb
       (s\<lparr>ledRedPin := True, ledGreenPin := True, sState := swLow,
          gpioTrigger := False, manualSetupModeCounter := 0\<rparr>)"

text \<open>What the environment supplies to one pass of \<open>loop\<close>.\<close>

record tick =
  swLow :: bool
  tGesture :: u32
  apcbGesture :: "u32 option"
  tStamp :: u32
  saved :: "string option"
  tSetup :: u32
  wifiUp :: bool
  tRec1 :: u32
  tRec2 :: u32
  connectOk :: bool
  msgs :: "message list"
  otaBlocks :: nat
  tOta :: u32

definition normalWork :: "tick \<Rightarrow> dozy \<Rightarrow> dozy" where
  "normalWork i s0 =
     (let s1 = gpioLoop (swLow i) (tGesture i) (apcbGesture i) (tStamp i) s0;
          s2 = wifimanagerLoop (saved i) (tSetup i) (wifiUp i) s1;
          s3 = (if \<not> offline s2 then mqttLoop (tRec1 i) (tRec2 i) (connectOk i) (msgs i) s2 else s2)
      in emit (DelayMs LOOP_DELAY_MS) s3)"

definition otaWork :: "tick \<Rightarrow> dozy \<Rightarrow> dozy" where
  "otaWork i s0 =
     (let s1 = otaHandle (otaBlocks i) s0
      in if tOta i - otaStart s1 > OTA_TIMEOUT_MS then s1\<lparr>restart := True\<rparr> else s1)"

definition loop :: "tick \<Rightarrow> dozy \<Rightarrow> dozy" where
  "loop i s0 =
     (let s1 = (if otaRunning s0 then otaWork i s0 else normalWork i s0)
      in if restart s1 then emit EspRestart s1 else s1)"

section \<open>Runs and what is observed of them\<close>

text \<open>Successive passes of \<open>loop\<close>, one for each entry of the list.\<close>

fun run :: "tick list \<Rightarrow> dozy \<Rightarrow> dozy" where
  "run [] s = s"
| "run (i # is) s = run is (loop i s)"

text \<open>
  Successive calls of \<open>gpioLoop\<close>. A sample is the level of the switch with the
  environment answers \<open>gpioLoop\<close> takes.
\<close>

type_synonym sample = "bool \<times> u32 \<times> u32 option \<times> u32"

fun gpioRun :: "sample list \<Rightarrow> dozy \<Rightarrow> dozy" where
  "gpioRun [] s = s"
| "gpioRun ((sw, t1, a, t2) # xs) s = gpioRun xs (gpioLoop sw t1 a t2 s)"

text \<open>Every sample of the list changes the recorded state of the switch.\<close>

fun transitions :: "sample list \<Rightarrow> dozy \<Rightarrow> bool" where
  "transitions [] s = True"
| "transitions ((sw, t1, a, t2) # xs) s =
     (sChanged sw s \<and> transitions xs (gpioLoop sw t1 a t2 s))"

text \<open>
  The delays \<open>gestureAction\<close> computes along a list of transitions: the first against
  the time stamp \<open>prev\<close> already stored, each later one against the stamp of the
  transition before it.
\<close>

fun delays :: "u32 \<Rightarrow> sample list \<Rightarrow> u32 list" where
  "delays prev [] = []"
| "delays prev ((sw, t1, a, t2) # xs) = (t1 - prev) # delays t2 xs"

text \<open>Successive calls of \<open>mqttReconnect\<close>, each with its two clock readings and the answer of the broker.\<close>

fun reconnects :: "(u32 \<times> u32 \<times> bool) list \<Rightarrow> dozy \<Rightarrow> dozy" where
  "reconnects [] s = s"
| "reconnects ((t1, t2, ok) # cs) s = reconnects cs (snd (mqttReconnect t1 t2 ok s))"

text \<open>Readings of the history of calls.\<close>

definition occurrences :: "event \<Rightarrow> event list \<Rightarrow> nat" where
  "occurrences e es = length (filter (\<lambda>x. x = e) es)"

fun published :: "event list \<Rightarrow> string list" where
  "published [] = []"
| "published (Publish p # es) = p # published es"
| "published (e # es) = published es"

fun requested :: "event list \<Rightarrow> (bool \<times> bool) list" where
  "requested [] = []"
| "requested (MqttCommunicate l g # es) = (l, g) # requested es"
| "requested (e # es) = requested es"

text \<open>The calls a step \<open>s \<rightarrow> s'\<close> added to the history.\<close>

definition added :: "dozy \<Rightarrow> dozy \<Rightarrow> event list" where
  "added s s' = drop (length (trace s)) (trace s')"

text \<open>
  A pass of \<open>loop\<close> is quiet when nothing reaches the firmware during it: the switch
  stays where it was (\<open>sw\<close>), no form is saved, no message arrives and no update block
  is received.
\<close>

definition quiet :: "bool \<Rightarrow> tick \<Rightarrow> bool" where
  "quiet sw i = (swLow i = sw \<and> saved i = None \<and> msgs i = [] \<and> otaBlocks i = 0)"

text \<open>The relay output follows \<open>lState\<close>; the green LED (lit on LOW) follows \<open>lState\<close>.\<close>

definition relay_follows :: "dozy \<Rightarrow> bool" where
  "relay_follows s = (relayPin s = lState s)"

definition green_follows :: "dozy \<Rightarrow> bool" where
  "green_follows s = ((\<not> ledGreenPin s) = lState s)"

section \<open>The actions of the command dispatcher\<close>

datatype action = EnterProvisioning | Reset | EnterUpdate | TurnOn | TurnOff

text \<open>The prefix each action is recognised by, and the statement the source runs for it.\<close>

fun keyword :: "action \<Rightarrow> string" where
  "keyword EnterProvisioning = CMD_SETUP"
| "keyword Reset = CMD_RESET"
| "keyword EnterUpdate = CMD_OTA"
| "keyword TurnOn = CMD_ON"
| "keyword TurnOff = CMD_OFF"

fun perform :: "u32 option \<Rightarrow> u32 \<Rightarrow> action \<Rightarrow> dozy \<Rightarrow> dozy" where
  "perform apcb t EnterProvisioning s = startWifiManager True None apcb s"
| "perform apcb t Reset s = s\<lparr>restart := True\<rparr>"
| "perform apcb t EnterUpdate s = otaCommand t s"
| "perform apcb t TurnOn s = enableL s"
| "perform apcb t TurnOff s = disableL s"

text \<open>
  The actions whose test succeeds, in the order in which \<open>mqttCallback\<close> makes its five
  tests.
\<close>

definition matching :: "string \<Rightarrow> action list" where
  "matching cmd =
     filter (\<lambda>a. startsWith cmd (keyword a)) [EnterProvisioning, Reset, EnterUpdate, TurnOn, TurnOff]"

text \<open>
  \<open>spec_classify\<close> follows the words of the specification, not the source: matching is
  by prefix and the first match wins, in the fixed order provisioning, reset, update,
  on, off; a payload that matches none is unknown.
\<close>

definition spec_classify :: "string \<Rightarrow> action option" where
  "spec_classify cmd =
     (if startsWith cmd CMD_SETUP then Some EnterProvisioning
      else if startsWith cmd CMD_RESET then Some Reset
      else if startsWith cmd CMD_OTA then Some EnterUpdate
      else if startsWith cmd CMD_ON then Some TurnOn
      else if startsWith cmd CMD_OFF then Some TurnOff
      else None)"

section \<open>Concrete runs\<close>

text \<open>
  The device after \<open>setup()\<close> with the switch released, no configuration file and the
  network joined without the portal.
\<close>

definition booted :: dozy where
  "booted = setup_dozy False None None power_on"

text \<open>A pass in which nothing happens at clock \<open>t\<close>, with the network up or down.\<close>

definition idle :: "bool \<Rightarrow> bool \<Rightarrow> u32 \<Rightarrow> tick" where
  "idle sw up t =
     \<lparr>swLow = sw, tGesture = t, apcbGesture = None, tStamp = t, saved = None, tSetup = t,
      wifiUp = up, tRec1 = t, tRec2 = t, connectOk = True, msgs = [], otaBlocks = 0, tOta = t\<rparr>"

text \<open>The device online and connected to the broker, one second after the start.\<close>

definition online :: dozy where
  "online = loop (idle False True 1000) booted"

text \<open>The same two states when the configuration file selects a momentary switch.\<close>

definition booted_momentary :: dozy where
  "booted_momentary = setup_dozy False (Some ''true'') None power_on"

definition online_momentary :: dozy where
  "online_momentary = loop (idle False True 1000) booted_momentary"

text \<open>
  Five transitions of the switch, press and release in turn. In \<open>five_early\<close> the
  first comes 100 ms after the start, in \<open>five_quick\<close> one second after it; they are
  100 ms apart (the last of \<open>five_early\<close> 50 ms), and the portal opens at the fifth.
\<close>

definition five_early :: "sample list" where
  "five_early =
     [(True, 100, None, 100), (False, 200, None, 200), (True, 300, None, 300),
      (False, 400, None, 400), (True, 450, Some 455, 460)]"

definition five_quick :: "sample list" where
  "five_quick =
     [(True, 1000, None, 1000), (False, 1100, None, 1100), (True, 1200, None, 1200),
      (False, 1300, None, 1300), (True, 1400, Some 1400, 1400)]"

text \<open>Three calls of \<open>mqttReconnect\<close> after the start, the broker refusing each attempt.\<close>

definition three_refused :: "(u32 \<times> u32 \<times> bool) list" where
  "three_refused = [(1000, 1001, False), (1500, 1501, False), (2500, 2501, False)]"

text \<open>
  The device in provisioning mode, entered at clock 2000 by the command \<open>set\<close>; the same
  entered 256 ms before the millisecond counter wraps; and the device in update mode,
  entered at clock 2000 by the command \<open>ota\<close>.
\<close>

definition provisioning :: dozy where
  "provisioning = loop ((idle False True 2000)\<lparr>msgs := [(''set'', Some 2000, 2000)]\<rparr>) online"

definition provisioning_late :: dozy where
  "provisioning_late =
     loop ((idle False True 4294967040)\<lparr>msgs := [(''set'', Some 4294967040, 4294967040)]\<rparr>) online"

definition updating :: dozy where
  "updating = loop ((idle False True 2000)\<lparr>msgs := [(''ota'', None, 2000)]\<rparr>) online"

text \<open>
  Whatever happens to the firmware after \<open>setup()\<close>: a pass of \<open>loop\<close>, which takes in
  every callback the libraries make during it, or the ticker calling \<open>ledTick\<close>.
\<close>

datatype happening = Pass tick | Blink

fun happen :: "happening \<Rightarrow> dozy \<Rightarrow> dozy" where
  "happen (Pass i) s = loop i s"
| "happen Blink s = ledTick s"

fun happenings :: "happening list \<Rightarrow> dozy \<Rightarrow> dozy" where
  "happenings [] s = s"
| "happenings (h # hs) s = happenings hs (happen h s)"

fun no_blocks :: "happening \<Rightarrow> bool" where
  "no_blocks (Pass i) = (otaBlocks i = 0)"
| "no_blocks Blink = True"

text \<open>
  Two histories after the start: the device goes online, the switch is pressed and
  the ticker fires; and the device goes online, receives \<open>ota\<close> and then two blocks
  of an update.
\<close>

definition demo :: "happening list" where
  "demo = [Pass (idle False True 1000), Pass (idle True True 1100), Blink]"

definition flashing :: "happening list" where
  "flashing =
     [Pass (idle False True 1000),
      Pass ((idle False True 2000)\<lparr>msgs := [(''ota'', None, 2000)]\<rparr>),
      Pass ((idle False True 2100)\<lparr>otaBlocks := 2\<rparr>)]"

text \<open>
  The calls that can come out of each part of a pass: out of \<open>gpioLoop\<close>, out of
  \<open>wifimanagerLoop\<close>, and out of \<open>mqttLoop\<close> with the commands it dispatches.
  \<open>emits P s s'\<close>: the step from \<open>s\<close> to \<open>s'\<close> only appended calls, all of them in \<open>P\<close>.
\<close>

fun switch_event :: "event \<Rightarrow> bool" where
  "switch_event (MqttCommunicate l g) = True"
| "switch_event (Publish p) = True"
| "switch_event (StartWifiManager d) = True"
| "switch_event StartConfigPortal = True"
| "switch_event (TickerAttach n) = True"
| "switch_event e = False"

fun portal_event :: "event \<Rightarrow> bool" where
  "portal_event WmProcess = True"
| "portal_event SaveConfig = True"
| "portal_event StopConfigPortal = True"
| "portal_event SetServer = True"
| "portal_event MdnsLoop = True"
| "portal_event e = False"

fun session_event :: "event \<Rightarrow> bool" where
  "session_event Connect = True"
| "session_event Subscribe = True"
| "session_event ClientLoop = True"
| "session_event OtaBegin = True"
| "session_event (MqttCommunicate l g) = True"
| "session_event (Publish p) = True"
| "session_event (StartWifiManager d) = True"
| "session_event StartConfigPortal = True"
| "session_event (TickerAttach n) = True"
| "session_event e = False"

definition emits :: "(event \<Rightarrow> bool) \<Rightarrow> dozy \<Rightarrow> dozy \<Rightarrow> bool" where
  "emits P s s' = (trace s' = trace s @ added s s' \<and> list_all P (added s s'))"

section \<open>Which variables each function leaves alone\<close>

lemma mqttCommunicate_frame [simp]:
  "offline (mqttCommunicate s) = offline s"
  "wifiManagerSetupRunning (mqttCommunicate s) = wifiManagerSetupRunning s"
  "wifiManagerSetupStart (mqttCommunicate s) = wifiManagerSetupStart s"
  "otaRunning (mqttCommunicate s) = otaRunning s"
  "otaStart (mqttCommunicate s) = otaStart s"
  "restart (mqttCommunicate s) = restart s"
  "mqttConnectAttempt (mqttCommunicate s) = mqttConnectAttempt s"
  "mqttConnectDelay (mqttCommunicate s) = mqttConnectDelay s"
  "momentarySwitch (mqttCommunicate s) = momentarySwitch s"
  "sState (mqttCommunicate s) = sState s"
  "lState (mqttCommunicate s) = lState s"
  "manualSetupActivatorTime (mqttCommunicate s) = manualSetupActivatorTime s"
  "manualSetupModeCounter (mqttCommunicate s) = manualSetupModeCounter s"
  "relayPin (mqttCommunicate s) = relayPin s"
  "ledGreenPin (mqttCommunicate s) = ledGreenPin s"
  "ledRedPin (mqttCommunicate s) = ledRedPin s"
  "mqttConnected (mqttCommunicate s) = mqttConnected s"
  by (simp_all add: mqttCommunicate_def emit_def Let_def)

lemma mqttCommunicate_gpioTrigger [simp]:
  "gpioTrigger (mqttCommunicate s) = (gpioTrigger s \<and> (offline s \<or> \<not> mqttConnected s))"
  by (auto simp: mqttCommunicate_def emit_def Let_def)

lemma mqttCommunicate_trace [simp]:
  "trace (mqttCommunicate s) =
     trace s @ MqttCommunicate (lState s) (gpioTrigger s) #
       (if \<not> offline s \<and> mqttConnected s then [Publish (mqttMsg (lState s) (gpioTrigger s))] else [])"
  by (simp add: mqttCommunicate_def emit_def Let_def)

lemma enableL_frame [simp]:
  "offline (enableL s) = offline s"
  "wifiManagerSetupRunning (enableL s) = wifiManagerSetupRunning s"
  "wifiManagerSetupStart (enableL s) = wifiManagerSetupStart s"
  "otaRunning (enableL s) = otaRunning s"
  "otaStart (enableL s) = otaStart s"
  "restart (enableL s) = restart s"
  "mqttConnectAttempt (enableL s) = mqttConnectAttempt s"
  "mqttConnectDelay (enableL s) = mqttConnectDelay s"
  "momentarySwitch (enableL s) = momentarySwitch s"
  "sState (enableL s) = sState s"
  "manualSetupActivatorTime (enableL s) = manualSetupActivatorTime s"
  "manualSetupModeCounter (enableL s) = manualSetupModeCounter s"
  "ledRedPin (enableL s) = ledRedPin s"
  "mqttConnected (enableL s) = mqttConnected s"
  by (simp_all add: enableL_def)

lemma disableL_frame [simp]:
  "offline (disableL s) = offline s"
  "wifiManagerSetupRunning (disableL s) = wifiManagerSetupRunning s"
  "wifiManagerSetupStart (disableL s) = wifiManagerSetupStart s"
  "otaRunning (disableL s) = otaRunning s"
  "otaStart (disableL s) = otaStart s"
  "restart (disableL s) = restart s"
  "mqttConnectAttempt (disableL s) = mqttConnectAttempt s"
  "mqttConnectDelay (disableL s) = mqttConnectDelay s"
  "momentarySwitch (disableL s) = momentarySwitch s"
  "sState (disableL s) = sState s"
  "manualSetupActivatorTime (disableL s) = manualSetupActivatorTime s"
  "manualSetupModeCounter (disableL s) = manualSetupModeCounter s"
  "ledRedPin (disableL s) = ledRedPin s"
  "mqttConnected (disableL s) = mqttConnected s"
  by (simp_all add: disableL_def)

lemma enableL_effect [simp]:
  "relayPin (enableL s)" "\<not> ledGreenPin (enableL s)" "lState (enableL s)"
  "gpioTrigger (enableL s) = (gpioTrigger s \<and> (offline s \<or> \<not> mqttConnected s))"
  "trace (enableL s) =
     trace s @ MqttCommunicate True (gpioTrigger s) #
       (if \<not> offline s \<and> mqttConnected s then [Publish (mqttMsg True (gpioTrigger s))] else [])"
  by (simp_all add: enableL_def)

lemma disableL_effect [simp]:
  "\<not> relayPin (disableL s)" "ledGreenPin (disableL s)" "\<not> lState (disableL s)"
  "gpioTrigger (disableL s) = (gpioTrigger s \<and> (offline s \<or> \<not> mqttConnected s))"
  "trace (disableL s) =
     trace s @ MqttCommunicate False (gpioTrigger s) #
       (if \<not> offline s \<and> mqttConnected s then [Publish (mqttMsg False (gpioTrigger s))] else [])"
  by (simp_all add: disableL_def)

lemma startWifiManager_frame [simp]:
  "offline (startWifiManager d cfg a s) = offline s"
  "otaRunning (startWifiManager d cfg a s) = otaRunning s"
  "otaStart (startWifiManager d cfg a s) = otaStart s"
  "restart (startWifiManager d cfg a s) = restart s"
  "mqttConnectAttempt (startWifiManager d cfg a s) = mqttConnectAttempt s"
  "mqttConnectDelay (startWifiManager d cfg a s) = mqttConnectDelay s"
  "sState (startWifiManager d cfg a s) = sState s"
  "lState (startWifiManager d cfg a s) = lState s"
  "gpioTrigger (startWifiManager d cfg a s) = gpioTrigger s"
  "manualSetupActivatorTime (startWifiManager d cfg a s) = manualSetupActivatorTime s"
  "manualSetupModeCounter (startWifiManager d cfg a s) = manualSetupModeCounter s"
  "relayPin (startWifiManager d cfg a s) = relayPin s"
  "ledGreenPin (startWifiManager d cfg a s) = ledGreenPin s"
  "ledRedPin (startWifiManager d cfg a s) = ledRedPin s"
  "mqttConnected (startWifiManager d cfg a s) = mqttConnected s"
  by (simp_all add: startWifiManager_def wifiManagerSetupStarted_def emit_def Let_def split: option.splits)

lemma startWifiManager_onDemand [simp]:
  "momentarySwitch (startWifiManager True cfg a s) = momentarySwitch s"
  "wifiManagerSetupRunning (startWifiManager True cfg a s) = (wifiManagerSetupRunning s \<or> a \<noteq> None)"
  "wifiManagerSetupStart (startWifiManager True cfg a s) =
     (if wifiManagerSetupRunning s then wifiManagerSetupStart s
      else case a of None \<Rightarrow> wifiManagerSetupStart s | Some t \<Rightarrow> t)"
  "trace (startWifiManager True cfg a s) =
     trace s @ StartWifiManager True #
       (if wifiManagerSetupRunning s then []
        else StartConfigPortal # (case a of None \<Rightarrow> [] | Some t \<Rightarrow> [TickerAttach 1000]))"
  by (simp_all add: startWifiManager_def wifiManagerSetupStarted_def emit_def Let_def split: option.splits)

lemma switchAction_frame [simp]:
  "offline (switchAction s) = offline s"
  "wifiManagerSetupRunning (switchAction s) = wifiManagerSetupRunning s"
  "wifiManagerSetupStart (switchAction s) = wifiManagerSetupStart s"
  "otaRunning (switchAction s) = otaRunning s"
  "otaStart (switchAction s) = otaStart s"
  "restart (switchAction s) = restart s"
  "mqttConnectAttempt (switchAction s) = mqttConnectAttempt s"
  "mqttConnectDelay (switchAction s) = mqttConnectDelay s"
  "momentarySwitch (switchAction s) = momentarySwitch s"
  "sState (switchAction s) = sState s"
  "manualSetupActivatorTime (switchAction s) = manualSetupActivatorTime s"
  "manualSetupModeCounter (switchAction s) = manualSetupModeCounter s"
  "ledRedPin (switchAction s) = ledRedPin s"
  "mqttConnected (switchAction s) = mqttConnected s"
  by (simp_all add: switchAction_def Let_def)

lemma gestureAction_frame [simp]:
  "offline (gestureAction t1 a t2 s) = offline s"
  "otaRunning (gestureAction t1 a t2 s) = otaRunning s"
  "otaStart (gestureAction t1 a t2 s) = otaStart s"
  "restart (gestureAction t1 a t2 s) = restart s"
  "mqttConnectAttempt (gestureAction t1 a t2 s) = mqttConnectAttempt s"
  "mqttConnectDelay (gestureAction t1 a t2 s) = mqttConnectDelay s"
  "momentarySwitch (gestureAction t1 a t2 s) = momentarySwitch s"
  "sState (gestureAction t1 a t2 s) = sState s"
  "lState (gestureAction t1 a t2 s) = lState s"
  "gpioTrigger (gestureAction t1 a t2 s) = gpioTrigger s"
  "relayPin (gestureAction t1 a t2 s) = relayPin s"
  "ledGreenPin (gestureAction t1 a t2 s) = ledGreenPin s"
  "ledRedPin (gestureAction t1 a t2 s) = ledRedPin s"
  "mqttConnected (gestureAction t1 a t2 s) = mqttConnected s"
  by (simp_all add: gestureAction_def Let_def)

section \<open>Reading the history\<close>

lemma occurrences_simps [simp]:
  "occurrences e [] = 0"
  "occurrences e (x # xs) = (if x = e then Suc (occurrences e xs) else occurrences e xs)"
  "occurrences e (xs @ ys) = occurrences e xs + occurrences e ys"
  by (simp_all add: occurrences_def)

lemma published_append [simp]: "published (xs @ ys) = published xs @ published ys"
  by (induction xs rule: published.induct) simp_all

lemma requested_append [simp]: "requested (xs @ ys) = requested xs @ requested ys"
  by (induction xs rule: requested.induct) simp_all

lemma switchAction_momentary_press:
  "momentarySwitch s \<Longrightarrow> sState s \<Longrightarrow>
   switchAction s = (if lState s then disableL (s\<lparr>gpioTrigger := True\<rparr>) else enableL (s\<lparr>gpioTrigger := True\<rparr>))"
  by (simp add: switchAction_def Let_def)

lemma switchAction_momentary_release:
  "momentarySwitch s \<Longrightarrow> \<not> sState s \<Longrightarrow> switchAction s = mqttCommunicate (s\<lparr>gpioTrigger := True\<rparr>)"
  by (simp add: switchAction_def Let_def)

lemma switchAction_toggle:
  "\<not> momentarySwitch s \<Longrightarrow>
   switchAction s =
     mqttCommunicate (if lState s then disableL (s\<lparr>gpioTrigger := True\<rparr>) else enableL (s\<lparr>gpioTrigger := True\<rparr>))"
  by (simp add: switchAction_def Let_def)

lemma gestureAction_counter [simp]:
  "manualSetupModeCounter (gestureAction t1 a t2 s) =
     (if t1 - manualSetupActivatorTime s < 500 then manualSetupModeCounter s + 1 else 0)"
  "manualSetupActivatorTime (gestureAction t1 a t2 s) = t2"
  by (simp_all add: gestureAction_def Let_def MANUAL_SETUP_MAX_DELAY_MS_def)

lemma gestureAction_trace [simp]:
  "trace (gestureAction t1 a t2 s) =
     trace s @
       (if t1 - manualSetupActivatorTime s < 500 \<and> manualSetupModeCounter s + 1 = 5
        then StartWifiManager True #
               (if wifiManagerSetupRunning s then []
                else StartConfigPortal # (case a of None \<Rightarrow> [] | Some t \<Rightarrow> [TickerAttach 1000]))
        else [])"
  by (simp add: gestureAction_def Let_def MANUAL_SETUP_MAX_DELAY_MS_def MANUAL_SETUP_COUNTER_def)

lemma gpioLoop_unchanged: "\<not> sChanged sw s \<Longrightarrow> gpioLoop sw t1 a t2 s = s"
  by (cases sw) (simp_all add: gpioLoop_def sChanged_def Let_def)

lemma gpioLoop_changed:
  "sChanged sw s \<Longrightarrow> gpioLoop sw t1 a t2 s = gestureAction t1 a t2 (switchAction (s\<lparr>sState := sw\<rparr>))"
  by (simp add: gpioLoop_def Let_def)

lemma gpioLoop_sState [simp]: "sState (gpioLoop sw t1 a t2 s) = sw"
  by (simp add: gpioLoop_def Let_def)


lemma added_append: "trace s' = trace s @ es \<Longrightarrow> added s s' = es"
  by (simp add: added_def)

lemma gpioLoop_press_momentary:
  "momentarySwitch s \<Longrightarrow> \<not> sState s \<Longrightarrow> \<not> lState s \<Longrightarrow>
   gpioLoop True t1 a t2 s = gestureAction t1 a t2 (enableL (s\<lparr>sState := True, gpioTrigger := True\<rparr>))"
  by (simp add: gpioLoop_changed sChanged_def switchAction_momentary_press)

lemma gpioLoop_release_momentary:
  "momentarySwitch s \<Longrightarrow> sState s \<Longrightarrow>
   gpioLoop False t1 a t2 s = gestureAction t1 a t2 (mqttCommunicate (s\<lparr>sState := False, gpioTrigger := True\<rparr>))"
  by (simp add: gpioLoop_changed sChanged_def switchAction_momentary_release)

lemma gpioLoop_toggle:
  "\<not> momentarySwitch s \<Longrightarrow> sState s \<noteq> sw \<Longrightarrow>
   gpioLoop sw t1 a t2 s =
     gestureAction t1 a t2
       (mqttCommunicate (if lState s then disableL (s\<lparr>sState := sw, gpioTrigger := True\<rparr>)
                         else enableL (s\<lparr>sState := sw, gpioTrigger := True\<rparr>)))"
  by (cases sw) (simp_all add: gpioLoop_changed sChanged_def switchAction_toggle)


section \<open>Two concrete states, evaluated\<close>

lemmas op_defs =
  loop_def normalWork_def otaWork_def otaHandle_def otaProgress_def
  wifimanagerLoop_def saveParamsCallback_def wifiManagerSetupStopped_def wifiManagerSetupStarted_def
  mqttLoop_def mqttReconnect_def clientLoop_def deliver_def mqttCallback_def otaCommand_def
  payloadCopy_def startsWith_def CMD_ON_def CMD_OFF_def CMD_SETUP_def CMD_OTA_def CMD_RESET_def
  gpioLoop_def sChanged_def switchAction_def gestureAction_def
  enableL_def disableL_def mqttCommunicate_def mqttMsg_def startWifiManager_def
  setup_dozy_def power_on_def emit_def idle_def
  CONFIG_TIMEOUT_MS_def OTA_TIMEOUT_MS_def LOOP_DELAY_MS_def MANUAL_SETUP_MAX_DELAY_MS_def
  MANUAL_SETUP_COUNTER_def Let_def

lemma booted_eq:
  "booted =
    \<lparr>offline = True, wifiManagerSetupRunning = False,
    wifiManagerSetupStart = 0, otaRunning = False, otaStart = 0,
    restart = False, mqttConnectAttempt = 0, mqttConnectDelay = 0,
    momentarySwitch = False, sState = False, lState = False,
    gpioTrigger = False, manualSetupActivatorTime = 0,
    manualSetupModeCounter = 0, relayPin = False, ledGreenPin = True,
    ledRedPin = True, mqttConnected = False,
    trace = [StartWifiManager False, AutoConnect]\<rparr>"
  by (simp add: booted_def setup_dozy_def power_on_def startWifiManager_def emit_def Let_def)

lemma online_eq:
  "online =
    \<lparr>offline = False, wifiManagerSetupRunning = False,
    wifiManagerSetupStart = 0, otaRunning = False, otaStart = 0,
    restart = False, mqttConnectAttempt = 1000, mqttConnectDelay = 0,
    momentarySwitch = False, sState = False, lState = False,
    gpioTrigger = False, manualSetupActivatorTime = 0,
    manualSetupModeCounter = 0, relayPin = False, ledGreenPin = True,
    ledRedPin = False, mqttConnected = True,
    trace =
      [StartWifiManager False, AutoConnect, WmProcess, SetServer, MdnsLoop,
       Connect, Subscribe, ClientLoop, DelayMs 10]\<rparr>"
  unfolding online_def booted_eq
  by (simp add: op_defs)


lemma booted_momentary_eq:
  "booted_momentary =
    \<lparr>offline = True, wifiManagerSetupRunning = False,
    wifiManagerSetupStart = 0, otaRunning = False, otaStart = 0,
    restart = False, mqttConnectAttempt = 0, mqttConnectDelay = 0,
    momentarySwitch = True, sState = False, lState = False,
    gpioTrigger = False, manualSetupActivatorTime = 0,
    manualSetupModeCounter = 0, relayPin = False, ledGreenPin = True,
    ledRedPin = True, mqttConnected = False,
    trace = [StartWifiManager False, AutoConnect]\<rparr>"
  by (simp add: booted_momentary_def setup_dozy_def power_on_def startWifiManager_def emit_def Let_def)

lemma online_momentary_eq:
  "online_momentary =
    \<lparr>offline = False, wifiManagerSetupRunning = False,
    wifiManagerSetupStart = 0, otaRunning = False, otaStart = 0,
    restart = False, mqttConnectAttempt = 1000, mqttConnectDelay = 0,
    momentarySwitch = True, sState = False, lState = False,
    gpioTrigger = False, manualSetupActivatorTime = 0,
    manualSetupModeCounter = 0, relayPin = False, ledGreenPin = True,
    ledRedPin = False, mqttConnected = True,
    trace =
      [StartWifiManager False, AutoConnect, WmProcess, SetServer, MdnsLoop,
       Connect, Subscribe, ClientLoop, DelayMs 10]\<rparr>"
  unfolding online_momentary_def booted_momentary_eq
  by (simp add: op_defs)

section \<open>The switch and the relay\<close>

text \<open>
  Claim C7, as amended. In momentary mode, from \<open>lState = false\<close> and the switch
  released, a press closes the relay and calls \<open>mqttCommunicate\<close> exactly once, with the
  user flag set; the release that follows leaves the relay and \<open>lState\<close> as they are
  and calls \<open>mqttCommunicate\<close> exactly once, again with the flag set and the state on.
  With the device online and the client connected each of the two calls publishes
  \<open>1.\<close>, one flagged publish for the press and one for the release, and nothing else
  is published; with the device offline or the client not connected nothing is
  published.
\<close>

theorem momentary_press_then_release:
  assumes "momentarySwitch s" "\<not> lState s" "\<not> sState s"
  shows "(let s1 = gpioLoop True t1 a1 u1 s; s2 = gpioLoop False t2 a2 u2 s1 in
     lState s1 \<and> relayPin s1 \<and> lState s2 = lState s1 \<and> relayPin s2 = relayPin s1 \<and>
     requested (added s s1) = [(True, True)] \<and>
     requested (added s1 s2) = [(True, True)] \<and>
     published (added s s1) = (if \<not> offline s \<and> mqttConnected s then [''1.''] else []) \<and>
     published (added s1 s2) = (if \<not> offline s \<and> mqttConnected s then [''1.''] else []))"
proof -
  define s1 where "s1 = gpioLoop True t1 a1 u1 s"
  define s2 where "s2 = gpioLoop False t2 a2 u2 s1"
  have e1: "s1 = gestureAction t1 a1 u1 (enableL (s\<lparr>sState := True, gpioTrigger := True\<rparr>))"
    using assms by (simp add: s1_def gpioLoop_press_momentary)
  have m1: "momentarySwitch s1" "sState s1" "lState s1" "relayPin s1"
     "offline s1 = offline s" "mqttConnected s1 = mqttConnected s"
    using assms by (simp_all add: e1)
  have t1: "added s s1 = MqttCommunicate True True #
       (if \<not> offline s \<and> mqttConnected s then [Publish ''1.''] else []) @ added (enableL (s\<lparr>sState := True, gpioTrigger := True\<rparr>)) s1"
    by (simp add: e1 mqttMsg_def added_def)
  have g1: "requested (added (enableL (s\<lparr>sState := True, gpioTrigger := True\<rparr>)) s1) = []"
      "published (added (enableL (s\<lparr>sState := True, gpioTrigger := True\<rparr>)) s1) = []"
    by (simp_all add: e1 added_def split: option.splits)
  have e2: "s2 = gestureAction t2 a2 u2 (mqttCommunicate (s1\<lparr>sState := False, gpioTrigger := True\<rparr>))"
    using m1 by (simp add: s2_def gpioLoop_release_momentary)
  have m2: "lState s2" "relayPin s2"
    using m1 by (simp_all add: e2)
  have t2: "added s1 s2 = MqttCommunicate True True #
       (if \<not> offline s \<and> mqttConnected s then [Publish ''1.''] else []) @ added (mqttCommunicate (s1\<lparr>sState := False, gpioTrigger := True\<rparr>)) s2"
    using m1 by (simp add: e2 mqttMsg_def added_def)
  have g2: "requested (added (mqttCommunicate (s1\<lparr>sState := False, gpioTrigger := True\<rparr>)) s2) = []"
      "published (added (mqttCommunicate (s1\<lparr>sState := False, gpioTrigger := True\<rparr>)) s2) = []"
    by (simp_all add: e2 added_def split: option.splits)
  have "lState s1 \<and> relayPin s1 \<and> lState s2 = lState s1 \<and> relayPin s2 = relayPin s1 \<and>
     requested (added s s1) = [(True, True)] \<and>
     requested (added s1 s2) = [(True, True)] \<and>
     published (added s s1) = (if \<not> offline s \<and> mqttConnected s then [''1.''] else []) \<and>
     published (added s1 s2) = (if \<not> offline s \<and> mqttConnected s then [''1.''] else [])"
    using m1 m2 by (simp add: t1 t2 g1 g2)
  then show ?thesis by (simp add: s1_def s2_def Let_def)
qed


theorem momentary_press_then_release_witness:
  "momentarySwitch online_momentary \<and> \<not> lState online_momentary \<and> \<not> sState online_momentary \<and>
   \<not> offline online_momentary \<and> mqttConnected online_momentary \<and>
   lState (gpioLoop True 1100 None 1100 online_momentary) \<and>
   lState (gpioLoop False 1200 None 1200 (gpioLoop True 1100 None 1100 online_momentary)) \<and>
   published (added online_momentary (gpioLoop True 1100 None 1100 online_momentary)) = [''1.''] \<and>
   published (added (gpioLoop True 1100 None 1100 online_momentary)
                (gpioLoop False 1200 None 1200 (gpioLoop True 1100 None 1100 online_momentary))) = [''1.'']"
proof -
  have h: "momentarySwitch online_momentary" "\<not> lState online_momentary" "\<not> sState online_momentary"
    "\<not> offline online_momentary" "mqttConnected online_momentary"
    by (simp_all add: online_momentary_eq)
  show ?thesis
    using h momentary_press_then_release [OF h(1) h(2) h(3), of 1100 None 1100 1200 None 1200]
    by (simp add: Let_def)
qed

text \<open>
  The claim as it was stated fails: right after the start of a device configured for
  a momentary switch, which is still offline, the press closes the relay and the
  release leaves it closed, but neither publishes anything.
\<close>

theorem momentary_offline_counterexample:
  "momentarySwitch booted_momentary \<and> \<not> lState booted_momentary \<and> \<not> sState booted_momentary \<and>
   offline booted_momentary \<and>
   lState (gpioLoop True 1100 None 1100 booted_momentary) \<and>
   published (added booted_momentary (gpioLoop True 1100 None 1100 booted_momentary)) = [] \<and>
   lState (gpioLoop False 1200 None 1200 (gpioLoop True 1100 None 1100 booted_momentary)) \<and>
   published (added (gpioLoop True 1100 None 1100 booted_momentary)
                (gpioLoop False 1200 None 1200 (gpioLoop True 1100 None 1100 booted_momentary))) = []"
  unfolding booted_momentary_eq
  by (simp add: gpioLoop_press_momentary gpioLoop_release_momentary added_def mqttMsg_def)

text \<open>
  Claim C2, as amended. In non-momentary mode, from \<open>lState = false\<close> and the switch
  released, a press and the release after it toggle the relay twice: on, then off
  again, so the pair ends with \<open>lState = false\<close>. Each transition calls
  \<open>mqttCommunicate\<close> twice. With the device online and the client connected the press
  publishes \<open>1.\<close> then \<open>1\<close> and the release \<open>0.\<close> then \<open>0\<close>, four publishes in all, the
  first of each pair flagged; otherwise nothing is published and the flag stays set
  for the second call.
\<close>

theorem toggle_press_then_release:
  assumes "\<not> momentarySwitch s" "\<not> lState s" "\<not> sState s"
  shows "(let s1 = gpioLoop True t1 a1 u1 s; s2 = gpioLoop False t2 a2 u2 s1 in
     lState s1 \<and> relayPin s1 \<and> \<not> lState s2 \<and> \<not> relayPin s2 \<and>
     requested (added s s1) = [(True, True), (True, offline s \<or> \<not> mqttConnected s)] \<and>
     requested (added s1 s2) = [(False, True), (False, offline s \<or> \<not> mqttConnected s)] \<and>
     published (added s s1) = (if \<not> offline s \<and> mqttConnected s then [''1.'', ''1''] else []) \<and>
     published (added s1 s2) = (if \<not> offline s \<and> mqttConnected s then [''0.'', ''0''] else []))"
proof -
  define p1 where "p1 = mqttCommunicate (enableL (s\<lparr>sState := True, gpioTrigger := True\<rparr>))"
  define s1 where "s1 = gpioLoop True t1 a1 u1 s"
  define p2 where "p2 = mqttCommunicate (disableL (s1\<lparr>sState := False, gpioTrigger := True\<rparr>))"
  define s2 where "s2 = gpioLoop False t2 a2 u2 s1"
  have e1: "s1 = gestureAction t1 a1 u1 p1"
    using assms by (simp add: s1_def p1_def gpioLoop_toggle)
  have m1: "\<not> momentarySwitch s1" "sState s1" "lState s1" "relayPin s1"
     "offline s1 = offline s" "mqttConnected s1 = mqttConnected s"
    using assms by (simp_all add: e1 p1_def)
  have t1: "added s s1 =
       [MqttCommunicate True True] @ (if \<not> offline s \<and> mqttConnected s then [Publish ''1.''] else []) @
       [MqttCommunicate True (offline s \<or> \<not> mqttConnected s)] @
       (if \<not> offline s \<and> mqttConnected s then [Publish ''1''] else []) @ added p1 s1"
    by (auto simp add: e1 p1_def mqttMsg_def added_def)
  have g1: "requested (added p1 s1) = []" "published (added p1 s1) = []"
    by (simp_all add: e1 added_def split: option.splits)
  have e2: "s2 = gestureAction t2 a2 u2 p2"
    using m1 by (simp add: s2_def p2_def gpioLoop_toggle)
  have m2: "\<not> lState s2" "\<not> relayPin s2"
    using m1 by (simp_all add: e2 p2_def)
  have t2: "added s1 s2 =
       [MqttCommunicate False True] @ (if \<not> offline s \<and> mqttConnected s then [Publish ''0.''] else []) @
       [MqttCommunicate False (offline s \<or> \<not> mqttConnected s)] @
       (if \<not> offline s \<and> mqttConnected s then [Publish ''0''] else []) @ added p2 s2"
    using m1 by (auto simp add: e2 p2_def mqttMsg_def added_def)
  have g2: "requested (added p2 s2) = []" "published (added p2 s2) = []"
    by (simp_all add: e2 added_def split: option.splits)
  have "lState s1 \<and> relayPin s1 \<and> \<not> lState s2 \<and> \<not> relayPin s2 \<and>
     requested (added s s1) = [(True, True), (True, offline s \<or> \<not> mqttConnected s)] \<and>
     requested (added s1 s2) = [(False, True), (False, offline s \<or> \<not> mqttConnected s)] \<and>
     published (added s s1) = (if \<not> offline s \<and> mqttConnected s then [''1.'', ''1''] else []) \<and>
     published (added s1 s2) = (if \<not> offline s \<and> mqttConnected s then [''0.'', ''0''] else [])"
    using m1 m2 by (simp add: t1 t2 g1 g2)
  then show ?thesis by (simp add: s1_def s2_def Let_def)
qed

theorem toggle_press_then_release_witness:
  "\<not> momentarySwitch online \<and> \<not> lState online \<and> \<not> sState online \<and>
   \<not> offline online \<and> mqttConnected online \<and>
   lState (gpioLoop True 1100 None 1100 online) \<and>
   \<not> lState (gpioLoop False 1200 None 1200 (gpioLoop True 1100 None 1100 online)) \<and>
   published (added online (gpioLoop True 1100 None 1100 online)) = [''1.'', ''1''] \<and>
   published (added (gpioLoop True 1100 None 1100 online)
                (gpioLoop False 1200 None 1200 (gpioLoop True 1100 None 1100 online))) = [''0.'', ''0'']"
proof -
  have h: "\<not> momentarySwitch online" "\<not> lState online" "\<not> sState online"
    "\<not> offline online" "mqttConnected online"
    by (simp_all add: online_eq)
  show ?thesis
    using h toggle_press_then_release [OF h(1) h(2) h(3), of 1100 None 1100 1200 None 1200]
    by (simp add: Let_def)
qed

text \<open>
  The claim as it was stated fails: online and connected, the pair ends with
  \<open>lState = false\<close>, not \<open>true\<close>; and right after the start, while the device is
  still offline, the second call of \<open>mqttCommunicate\<close> at the press carries the flag
  as the first does, and the pair publishes nothing.
\<close>

theorem toggle_pair_counterexample:
  "\<not> momentarySwitch online \<and> \<not> lState online \<and> \<not> sState online \<and>
   \<not> lState (gpioLoop False 1200 None 1200 (gpioLoop True 1100 None 1100 online)) \<and>
   \<not> momentarySwitch booted \<and> \<not> lState booted \<and> \<not> sState booted \<and>
   requested (added booted (gpioLoop True 1100 None 1100 booted)) = [(True, True), (True, True)] \<and>
   published (added booted (gpioLoop False 1200 None 1200 (gpioLoop True 1100 None 1100 booted))) = []"
  unfolding online_eq booted_eq
  by (simp add: gpioLoop_toggle added_def mqttMsg_def)

section \<open>The setup gesture\<close>
lemma switchAction_keeps_requests [simp]:
  "occurrences (StartWifiManager b) (trace (switchAction s)) = occurrences (StartWifiManager b) (trace s)"
  by (simp add: switchAction_def Let_def)

lemma counter_succ:
  fixes c :: u32
  assumes "unat c < 5"
  shows "unat (c + 1) = unat c + 1" and "(c + 1 = 5) = (unat c = 4)"
proof -
  show a: "unat (c + 1) = unat c + 1"
    using assms by (simp add: unat_word_ariths)
  have "(c + 1 = 5) = (unat (c + 1) = unat (5 :: u32))"
    by (simp only: word_unat_eq_iff)
  then show "(c + 1 = 5) = (unat c = 4)"
    using a by simp
qed

lemma gpioLoop_gesture:
  assumes "sChanged sw s"
  shows "manualSetupModeCounter (gpioLoop sw t1 a t2 s) =
           (if t1 - manualSetupActivatorTime s < 500 then manualSetupModeCounter s + 1 else 0)"
    and "manualSetupActivatorTime (gpioLoop sw t1 a t2 s) = t2"
    and "occurrences (StartWifiManager True) (trace (gpioLoop sw t1 a t2 s)) =
           occurrences (StartWifiManager True) (trace s) +
           (if t1 - manualSetupActivatorTime s < 500 \<and> manualSetupModeCounter s + 1 = 5 then 1 else 0)"
  using assms by (simp_all add: gpioLoop_changed split: option.splits)

lemma transitions_take: "transitions xs s \<Longrightarrow> transitions (take k xs) s"
proof (induction xs arbitrary: s k)
  case Nil
  then show ?case by simp
next
  case (Cons x xs)
  obtain sw t1 a t2 where x: "x = (sw, t1, a, t2)" by (cases x) auto
  show ?case
  proof (cases k)
    case 0
    then show ?thesis by simp
  next
    case (Suc j)
    with Cons x show ?thesis by simp
  qed
qed

lemma gesture_quiet_run:
  assumes "transitions xs s"
    and "unat (manualSetupModeCounter s) + length xs \<le> 5"
    and "(\<exists>d \<in> set (delays (manualSetupActivatorTime s) xs). 500 \<le> d) \<or>
         unat (manualSetupModeCounter s) + length xs < 5"
  shows "occurrences (StartWifiManager True) (trace (gpioRun xs s)) =
         occurrences (StartWifiManager True) (trace s)"
  using assms
proof (induction xs arbitrary: s)
  case Nil
  then show ?case by simp
next
  case (Cons x xs)
  obtain sw t1 a t2 where x: "x = (sw, t1, a, t2)" by (cases x) auto
  let ?s' = "gpioLoop sw t1 a t2 s"
  let ?d = "t1 - manualSetupActivatorTime s"
  from Cons.prems x have ch: "sChanged sw s" and tr: "transitions xs ?s'" by simp_all
  from Cons.prems have small: "unat (manualSetupModeCounter s) < 5" by simp
  show ?case
  proof (cases "?d < 500")
    case True
    have c': "unat (manualSetupModeCounter ?s') = unat (manualSetupModeCounter s) + 1"
      using ch True small by (simp add: gpioLoop_gesture counter_succ)
    have slack: "(\<exists>d \<in> set (delays (manualSetupActivatorTime ?s') xs). 500 \<le> d) \<or>
         unat (manualSetupModeCounter ?s') + length xs < 5"
      using Cons.prems(3) True x ch small by (auto simp: gpioLoop_gesture counter_succ)
    have nofire: "unat (manualSetupModeCounter s) \<noteq> 4"
    proof
      assume four: "unat (manualSetupModeCounter s) = 4"
      with Cons.prems(2) have "xs = []" by simp
      with Cons.prems(3) True x four show False by simp
    qed
    have "occurrences (StartWifiManager True) (trace ?s') = occurrences (StartWifiManager True) (trace s)"
      using ch small nofire by (simp add: gpioLoop_gesture counter_succ)
    moreover have "occurrences (StartWifiManager True) (trace (gpioRun xs ?s')) =
        occurrences (StartWifiManager True) (trace ?s')"
      using Cons.IH [OF tr _ slack] Cons.prems(2) c' by simp
    ultimately show ?thesis using x by simp
  next
    case False
    have c': "manualSetupModeCounter ?s' = 0"
      using ch False by (simp add: gpioLoop_gesture)
    have "occurrences (StartWifiManager True) (trace ?s') = occurrences (StartWifiManager True) (trace s)"
      using ch False by (simp add: gpioLoop_gesture)
    moreover have "occurrences (StartWifiManager True) (trace (gpioRun xs ?s')) =
        occurrences (StartWifiManager True) (trace ?s')"
      using Cons.IH [OF tr] Cons.prems(2) c' by simp
    ultimately show ?thesis using x by simp
  qed
qed

lemma gesture_window_run:
  assumes "transitions xs s"
    and "unat (manualSetupModeCounter s) + length xs \<le> 5"
    and "\<forall>d \<in> set (delays (manualSetupActivatorTime s) xs). d < 500"
  shows "unat (manualSetupModeCounter (gpioRun xs s)) = unat (manualSetupModeCounter s) + length xs \<and>
         occurrences (StartWifiManager True) (trace (gpioRun xs s)) =
           occurrences (StartWifiManager True) (trace s) +
           (if xs \<noteq> [] \<and> unat (manualSetupModeCounter s) + length xs = 5 then 1 else 0)"
  using assms
proof (induction xs arbitrary: s)
  case Nil
  then show ?case by simp
next
  case (Cons x xs)
  obtain sw t1 a t2 where x: "x = (sw, t1, a, t2)" by (cases x) auto
  let ?s' = "gpioLoop sw t1 a t2 s"
  from Cons.prems x have ch: "sChanged sw s" and tr: "transitions xs ?s'" by simp_all
  from Cons.prems have small: "unat (manualSetupModeCounter s) < 5" by simp
  from Cons.prems x have win: "t1 - manualSetupActivatorTime s < 500" by simp
  have c': "unat (manualSetupModeCounter ?s') = unat (manualSetupModeCounter s) + 1"
    using ch win small by (simp add: gpioLoop_gesture counter_succ)
  have r': "occurrences (StartWifiManager True) (trace ?s') =
      occurrences (StartWifiManager True) (trace s) + (if unat (manualSetupModeCounter s) = 4 then 1 else 0)"
    using ch win small by (simp add: gpioLoop_gesture counter_succ)
  have rest: "\<forall>d \<in> set (delays (manualSetupActivatorTime ?s') xs). d < 500"
    using Cons.prems(3) x ch by (simp add: gpioLoop_gesture)
  have ih: "unat (manualSetupModeCounter (gpioRun xs ?s')) = unat (manualSetupModeCounter ?s') + length xs \<and>
         occurrences (StartWifiManager True) (trace (gpioRun xs ?s')) =
           occurrences (StartWifiManager True) (trace ?s') +
           (if xs \<noteq> [] \<and> unat (manualSetupModeCounter ?s') + length xs = 5 then 1 else 0)"
    using Cons.IH [OF tr _ rest] Cons.prems(2) c' by simp
  show ?case
    using ih c' r' x Cons.prems(2) by (cases "xs = []") auto
qed


lemma sChanged_after [simp]: "sChanged sw (gpioLoop sw' t1 a t2 s) = (sw \<noteq> sw')"
  by (cases sw) (auto simp add: sChanged_def)


text \<open>
  Claim C1, as amended. The counting rule of \<open>gpioLoop\<close> at a transition: when the
  unsigned difference between the clock and the stored time stamp is below 500 the
  counter goes up by one, otherwise it is set to 0; \<open>startWifiManager(true)\<close> is called
  exactly when the incremented counter equals 5, and the counter is left at 5. So, from
  a counter of 0, five transitions each of which is measured within the window (the
  first against the stored time stamp, which is 0 after the start) make the call
  exactly once, at the fifth; and if any one of the five measured delays is 500 or
  more, the call is never made during the five.
\<close>

theorem gesture_five_transitions:
  assumes "length xs = 5" "transitions xs s" "manualSetupModeCounter s = 0"
  shows
   "((\<forall>d \<in> set (delays (manualSetupActivatorTime s) xs). d < 500) \<longrightarrow>
       (\<forall>k<5. occurrences (StartWifiManager True) (trace (gpioRun (take k xs) s)) =
                occurrences (StartWifiManager True) (trace s)) \<and>
       occurrences (StartWifiManager True) (trace (gpioRun xs s)) =
         occurrences (StartWifiManager True) (trace s) + 1 \<and>
       manualSetupModeCounter (gpioRun xs s) = 5) \<and>
    ((\<exists>d \<in> set (delays (manualSetupActivatorTime s) xs). 500 \<le> d) \<longrightarrow>
       (\<forall>k. occurrences (StartWifiManager True) (trace (gpioRun (take k xs) s)) =
             occurrences (StartWifiManager True) (trace s))) \<and>
    (sChanged sw r \<longrightarrow>
       manualSetupModeCounter (gpioLoop sw t1 a t2 r) =
         (if t1 - manualSetupActivatorTime r < 500 then manualSetupModeCounter r + 1 else 0) \<and>
       manualSetupActivatorTime (gpioLoop sw t1 a t2 r) = t2 \<and>
       occurrences (StartWifiManager True) (trace (gpioLoop sw t1 a t2 r)) =
         occurrences (StartWifiManager True) (trace r) +
         (if t1 - manualSetupActivatorTime r < 500 \<and> manualSetupModeCounter r + 1 = 5 then 1 else 0))"
proof (intro conjI impI allI)
  fix k :: nat
  assume "k < 5"
  then show "occurrences (StartWifiManager True) (trace (gpioRun (take k xs) s)) =
      occurrences (StartWifiManager True) (trace s)"
    using assms by (intro gesture_quiet_run transitions_take) simp_all
next
  assume win: "\<forall>d \<in> set (delays (manualSetupActivatorTime s) xs). d < 500"
  have xs: "xs \<noteq> []" using assms(1) by auto
  have run: "unat (manualSetupModeCounter (gpioRun xs s)) = unat (manualSetupModeCounter s) + length xs \<and>
         occurrences (StartWifiManager True) (trace (gpioRun xs s)) =
           occurrences (StartWifiManager True) (trace s) +
           (if xs \<noteq> [] \<and> unat (manualSetupModeCounter s) + length xs = 5 then 1 else 0)"
    using assms win by (intro gesture_window_run) simp_all
  show "occurrences (StartWifiManager True) (trace (gpioRun xs s)) =
      occurrences (StartWifiManager True) (trace s) + 1"
    using run xs assms by simp
  have "unat (manualSetupModeCounter (gpioRun xs s)) = unat (5 :: u32)"
    using run assms by simp
  then show "manualSetupModeCounter (gpioRun xs s) = 5"
    by (simp only: word_unat_eq_iff)
next
  fix k :: nat
  assume out: "\<exists>d \<in> set (delays (manualSetupActivatorTime s) xs). 500 \<le> d"
  show "occurrences (StartWifiManager True) (trace (gpioRun (take k xs) s)) =
      occurrences (StartWifiManager True) (trace s)"
  proof (cases "k < 5")
    case True
    then show ?thesis
      using assms by (intro gesture_quiet_run transitions_take) simp_all
  next
    case False
    then have "take k xs = xs" using assms(1) by simp
    then show ?thesis
      using assms out by (simp add: gesture_quiet_run)
  qed
qed (simp_all add: gpioLoop_gesture)

theorem gesture_five_transitions_witness:
  "length five_early = 5 \<and> transitions five_early booted \<and> manualSetupModeCounter booted = 0 \<and>
   delays (manualSetupActivatorTime booted) five_early = [100, 100, 100, 100, 50] \<and>
   occurrences (StartWifiManager True) (trace booted) = 0 \<and>
   occurrences (StartWifiManager True) (trace (gpioRun (take 4 five_early) booted)) = 0 \<and>
   occurrences (StartWifiManager True) (trace (gpioRun five_early booted)) = 1 \<and>
   length five_quick = 5 \<and> transitions five_quick booted \<and>
   delays (manualSetupActivatorTime booted) five_quick = [1000, 100, 100, 100, 100] \<and>
   occurrences (StartWifiManager True) (trace (gpioRun (take 5 five_quick) booted)) = 0"
proof -
  have e: "length five_early = 5" "transitions five_early booted" "manualSetupModeCounter booted = 0"
    by (simp_all add: five_early_def booted_eq sChanged_def)
  have q: "length five_quick = 5" "transitions five_quick booted"
    by (simp_all add: five_quick_def booted_eq sChanged_def)
  have d: "delays (manualSetupActivatorTime booted) five_early = [100, 100, 100, 100, 50]"
    "delays (manualSetupActivatorTime booted) five_quick = [1000, 100, 100, 100, 100]"
    "occurrences (StartWifiManager True) (trace booted) = 0"
    by (simp_all add: five_early_def five_quick_def booted_eq)
  have win: "\<forall>d \<in> set (delays (manualSetupActivatorTime booted) five_early). d < 500"
    by (simp add: d)
  have out: "\<exists>d \<in> set (delays (manualSetupActivatorTime booted) five_quick). 500 \<le> d"
    by (simp add: d)
  have early: "(\<forall>k<5. occurrences (StartWifiManager True) (trace (gpioRun (take k five_early) booted)) =
                occurrences (StartWifiManager True) (trace booted)) \<and>
       occurrences (StartWifiManager True) (trace (gpioRun five_early booted)) =
         occurrences (StartWifiManager True) (trace booted) + 1"
    using gesture_five_transitions [OF e, of True booted 0 None 0] win by blast
  have quick: "\<forall>k. occurrences (StartWifiManager True) (trace (gpioRun (take k five_quick) booted)) =
             occurrences (StartWifiManager True) (trace booted)"
    using gesture_five_transitions [OF q e(3), of True booted 0 None 0] out by blast
  have "occurrences (StartWifiManager True) (trace (gpioRun (take 4 five_early) booted)) =
        occurrences (StartWifiManager True) (trace booted)"
    using early by simp
  moreover have "occurrences (StartWifiManager True) (trace (gpioRun (take 5 five_quick) booted)) =
        occurrences (StartWifiManager True) (trace booted)"
    using quick by (rule spec)
  ultimately show ?thesis
    using early e q d by simp
qed

text \<open>
  The claim as it was stated fails. After the start, five transitions 100 ms apart, the
  first one second after the start, never call \<open>startWifiManager(true)\<close>: the first is
  out of the window and sets the counter to 0, not 1, so the fifth finds it at 4. And
  where the call is made (\<open>five_early\<close>), the counter stays at 5 afterwards.
\<close>

theorem gesture_five_counterexample:
  "length five_quick = 5 \<and> transitions five_quick booted \<and>
   delays 1000 (tl five_quick) = [100, 100, 100, 100] \<and>
   occurrences (StartWifiManager True) (trace (gpioRun five_quick booted)) = 0 \<and>
   manualSetupModeCounter (gpioRun (take 1 five_quick) booted) = 0 \<and>
   occurrences (StartWifiManager True) (trace (gpioRun five_early booted)) = 1 \<and>
   manualSetupModeCounter (gpioRun five_early booted) = 5"
  unfolding booted_eq five_quick_def five_early_def
  by (simp add: gpioLoop_changed sChanged_def switchAction_toggle)


section \<open>The user flag after a relay operation\<close>

text \<open>
  Claim C3, as amended. \<open>enableL\<close> and \<open>disableL\<close> set the relay and \<open>lState\<close> and call
  \<open>mqttCommunicate\<close> with the new state and the current flag. When the device is online
  and the client connected the message is published and the flag is cleared; when the
  device is offline or the client is not connected nothing is published and the flag
  keeps the value it had.
\<close>

theorem relay_operation_flag:
  "(\<not> offline s \<and> mqttConnected s \<longrightarrow> \<not> gpioTrigger (enableL s) \<and> \<not> gpioTrigger (disableL s)) \<and>
   (offline s \<or> \<not> mqttConnected s \<longrightarrow>
      gpioTrigger (enableL s) = gpioTrigger s \<and> gpioTrigger (disableL s) = gpioTrigger s) \<and>
   lState (enableL s) \<and> relayPin (enableL s) \<and> \<not> lState (disableL s) \<and> \<not> relayPin (disableL s) \<and>
   added s (enableL s) =
     MqttCommunicate True (gpioTrigger s) #
       (if \<not> offline s \<and> mqttConnected s then [Publish (mqttMsg True (gpioTrigger s))] else []) \<and>
   added s (disableL s) =
     MqttCommunicate False (gpioTrigger s) #
       (if \<not> offline s \<and> mqttConnected s then [Publish (mqttMsg False (gpioTrigger s))] else [])"
  by (auto simp: added_def)

theorem relay_operation_flag_witness:
  "\<not> offline (online\<lparr>gpioTrigger := True\<rparr>) \<and> mqttConnected (online\<lparr>gpioTrigger := True\<rparr>) \<and>
   \<not> gpioTrigger (enableL (online\<lparr>gpioTrigger := True\<rparr>)) \<and>
   \<not> gpioTrigger (disableL (online\<lparr>gpioTrigger := True\<rparr>)) \<and>
   added (online\<lparr>gpioTrigger := True\<rparr>) (enableL (online\<lparr>gpioTrigger := True\<rparr>)) =
     [MqttCommunicate True True, Publish ''1.''] \<and>
   offline (booted\<lparr>gpioTrigger := True\<rparr>) \<and>
   gpioTrigger (enableL (booted\<lparr>gpioTrigger := True\<rparr>)) \<and>
   added (booted\<lparr>gpioTrigger := True\<rparr>) (disableL (booted\<lparr>gpioTrigger := True\<rparr>)) =
     [MqttCommunicate False True]"
proof -
  have h: "\<not> offline (online\<lparr>gpioTrigger := True\<rparr>)" "mqttConnected (online\<lparr>gpioTrigger := True\<rparr>)"
    "offline (booted\<lparr>gpioTrigger := True\<rparr>)"
    by (simp_all add: online_eq booted_eq)
  show ?thesis
    using h relay_operation_flag [of "online\<lparr>gpioTrigger := True\<rparr>"] relay_operation_flag [of "booted\<lparr>gpioTrigger := True\<rparr>"]
    by (simp add: mqttMsg_def)
qed

text \<open>
  The claim as it was stated fails: while the device is offline, as it is right after
  the start, \<open>enableL\<close> and \<open>disableL\<close> leave a set flag set, and so does the press
  that calls them.
\<close>

theorem relay_operation_flag_counterexample:
  "offline (booted\<lparr>gpioTrigger := True\<rparr>) \<and>
   gpioTrigger (enableL (booted\<lparr>gpioTrigger := True\<rparr>)) \<and>
   gpioTrigger (disableL (booted\<lparr>gpioTrigger := True\<rparr>)) \<and>
   gpioTrigger (gpioLoop True 1100 None 1100 booted)"
  unfolding booted_eq
  by (simp add: gpioLoop_changed sChanged_def switchAction_toggle)


section \<open>The command dispatcher\<close>
lemma startsWith_simps [simp]:
  "startsWith s [] = True"
  "startsWith [] (k # ks) = False"
  "startsWith (c # cs) (k # ks) = (c = k \<and> startsWith cs ks)"
  by (auto simp: startsWith_def)

lemma matching_Nil: "matching [] = []"
  by (simp add: matching_def CMD_ON_def CMD_OFF_def CMD_SETUP_def CMD_OTA_def CMD_RESET_def)

lemma matching_Cons:
  "matching (c # cs) =
     (if c = CHR ''s'' then (if startsWith cs ''et'' then [EnterProvisioning] else [])
      else if c = CHR ''r'' then (if startsWith cs ''st'' then [Reset] else [])
      else if c = CHR ''o'' then (if startsWith cs ''ta'' then [EnterUpdate] else [])
      else if c = CHR ''1'' then [TurnOn]
      else if c = CHR ''0'' then [TurnOff]
      else [])"
  by (simp add: matching_def CMD_ON_def CMD_OFF_def CMD_SETUP_def CMD_OTA_def CMD_RESET_def)

lemma matching_at_most_one: "length (matching cmd) \<le> 1"
  by (cases cmd) (simp_all add: matching_Nil matching_Cons)

lemma matching_classify:
  "matching cmd = (case spec_classify cmd of None \<Rightarrow> [] | Some act \<Rightarrow> [act])"
  by (cases cmd)
     (simp_all add: matching_Nil matching_Cons spec_classify_def
        CMD_ON_def CMD_OFF_def CMD_SETUP_def CMD_OTA_def CMD_RESET_def)

lemma mqttCallback_fold:
  "mqttCallback payload a t s = fold (perform a t) (matching (payloadCopy payload)) s"
  by (simp add: mqttCallback_def matching_def Let_def)


text \<open>
  Claim C9. For every payload at most one of the five tests of \<open>mqttCallback\<close>
  succeeds, so \<open>mqttCallback\<close> runs at most one of the five actions: its result is the
  state it was given or the result of one action. The five keywords begin with five
  different characters.
\<close>

theorem command_at_most_one:
  "length (matching (payloadCopy payload)) \<le> 1 \<and>
   mqttCallback payload a t s = fold (perform a t) (matching (payloadCopy payload)) s \<and>
   (mqttCallback payload a t s = s \<or> (\<exists>act. mqttCallback payload a t s = perform a t act s)) \<and>
   distinct (map (\<lambda>act. hd (keyword act)) [EnterProvisioning, Reset, EnterUpdate, TurnOn, TurnOff])"
proof -
  have one: "length (matching (payloadCopy payload)) \<le> 1"
    by (rule matching_at_most_one)
  have run: "mqttCallback payload a t s = fold (perform a t) (matching (payloadCopy payload)) s"
    by (rule mqttCallback_fold)
  have "mqttCallback payload a t s = s \<or> (\<exists>act. mqttCallback payload a t s = perform a t act s)"
  proof (cases "matching (payloadCopy payload)")
    case Nil
    then show ?thesis by (simp add: run)
  next
    case (Cons act rest)
    with one have "rest = []" by simp
    with Cons show ?thesis by (auto simp: run)
  qed
  moreover have "distinct (map (\<lambda>act. hd (keyword act)) [EnterProvisioning, Reset, EnterUpdate, TurnOn, TurnOff])"
    by (simp add: CMD_ON_def CMD_OFF_def CMD_SETUP_def CMD_OTA_def CMD_RESET_def)
  ultimately show ?thesis using one run by blast
qed

theorem command_at_most_one_witness:
  "matching (payloadCopy ''1'') = [TurnOn] \<and> mqttCallback ''1'' None 0 online = enableL online \<and>
   length (matching (payloadCopy ''1'')) \<le> 1"
proof -
  have m: "matching (payloadCopy ''1'') = [TurnOn]"
    by (simp add: payloadCopy_def matching_Cons)
  show ?thesis
    using command_at_most_one [of "''1''" None 0 online] m by simp
qed


text \<open>
  Claim C4. \<open>mqttCallback\<close> does what the first-match classification of the
  specification says: the action of the first keyword, in the order \<open>set\<close>, \<open>rst\<close>,
  \<open>ota\<close>, \<open>1\<close>, \<open>0\<close>, that is a prefix of the payload, and nothing when none is. For
  the payload \<open>setota\<close> that is the provisioning action, \<open>startWifiManager(true)\<close>, and
  the update mode is not entered.
\<close>

theorem command_classification:
  "mqttCallback payload a t s =
     (case spec_classify (payloadCopy payload) of None \<Rightarrow> s | Some act \<Rightarrow> perform a t act s) \<and>
   matching (payloadCopy payload) =
     (case spec_classify (payloadCopy payload) of None \<Rightarrow> [] | Some act \<Rightarrow> [act]) \<and>
   spec_classify (payloadCopy ''setota'') = Some EnterProvisioning \<and>
   mqttCallback ''setota'' a t s = startWifiManager True None a s \<and>
   otaRunning (mqttCallback ''setota'' a t s) = otaRunning s \<and>
   otaStart (mqttCallback ''setota'' a t s) = otaStart s \<and>
   occurrences OtaBegin (trace (mqttCallback ''setota'' a t s)) = occurrences OtaBegin (trace s)"
proof -
  have m: "matching (payloadCopy payload) =
     (case spec_classify (payloadCopy payload) of None \<Rightarrow> [] | Some act \<Rightarrow> [act])"
    by (rule matching_classify)
  have r: "mqttCallback payload a t s =
     (case spec_classify (payloadCopy payload) of None \<Rightarrow> s | Some act \<Rightarrow> perform a t act s)"
    by (simp add: mqttCallback_fold m split: option.splits)
  have c: "spec_classify (payloadCopy ''setota'') = Some EnterProvisioning"
    by (simp add: payloadCopy_def spec_classify_def CMD_SETUP_def)
  have e: "mqttCallback ''setota'' a t s = startWifiManager True None a s"
    by (simp add: mqttCallback_fold matching_classify c)
  show ?thesis
    using m r c by (simp add: e split: option.splits)
qed

theorem command_classification_witness:
  "spec_classify (payloadCopy ''setota'') = Some EnterProvisioning \<and>
   mqttCallback ''setota'' (Some 2000) 2000 online = startWifiManager True None (Some 2000) online \<and>
   wifiManagerSetupRunning (mqttCallback ''setota'' (Some 2000) 2000 online) \<and>
   \<not> otaRunning (mqttCallback ''setota'' (Some 2000) 2000 online)"
proof -
  have "\<not> otaRunning online" by (simp add: online_eq)
  then show ?thesis
    using command_classification [of "''setota''" "Some 2000" 2000 online] by simp
qed


section \<open>Reconnecting to the broker\<close>
lemma backoff_step:
  fixes d :: u32
  assumes "unat d \<le> 60000"
  shows "unat (if d + 1000 > 60000 then 60000 else d + 1000) = min (unat d + 1000) 60000"
proof -
  have a: "unat (d + 1000) = unat d + 1000"
    using assms by (simp add: unat_word_ariths)
  show ?thesis
    by (simp add: word_less_nat_alt a)
qed

lemma mqttReconnect_failed:
  assumes "\<not> mqttConnected s" "unat (mqttConnectDelay s) \<le> 60000"
  shows "\<not> mqttConnected (snd (mqttReconnect t1 t2 False s))"
    and "mqttConnectDelay s < t1 - mqttConnectAttempt s \<Longrightarrow>
         unat (mqttConnectDelay (snd (mqttReconnect t1 t2 False s))) = min (unat (mqttConnectDelay s) + 1000) 60000"
    and "\<not> mqttConnectDelay s < t1 - mqttConnectAttempt s \<Longrightarrow>
         mqttConnectDelay (snd (mqttReconnect t1 t2 False s)) = mqttConnectDelay s"
  using assms backoff_step [of "mqttConnectDelay s"]
  by (simp_all add: mqttReconnect_def emit_def Let_def)

lemma mqttReconnect_attempts:
  "occurrences Connect (trace (snd (mqttReconnect t1 t2 ok s))) =
     occurrences Connect (trace s) +
     (if \<not> mqttConnected s \<and> mqttConnectDelay s < t1 - mqttConnectAttempt s then 1 else 0)"
  by (simp add: mqttReconnect_def emit_def Let_def)

lemma reconnects_failed:
  assumes "\<not> mqttConnected s" "unat (mqttConnectDelay s) \<le> 60000" "\<forall>c \<in> set cs. \<not> snd (snd c)"
  shows "\<exists>n. occurrences Connect (trace (reconnects cs s)) = occurrences Connect (trace s) + n \<and>
           unat (mqttConnectDelay (reconnects cs s)) = min (unat (mqttConnectDelay s) + 1000 * n) 60000"
  using assms
proof (induction cs arbitrary: s)
  case Nil
  then show ?case by simp
next
  case (Cons c cs)
  obtain t1 t2 ok where c: "c = (t1, t2, ok)" by (cases c) auto
  with Cons.prems have ok: "\<not> ok" by simp
  let ?s' = "snd (mqttReconnect t1 t2 False s)"
  have dis: "\<not> mqttConnected ?s'"
    using Cons.prems by (simp add: mqttReconnect_failed)
  show ?case
  proof (cases "mqttConnectDelay s < t1 - mqttConnectAttempt s")
    case True
    have d': "unat (mqttConnectDelay ?s') = min (unat (mqttConnectDelay s) + 1000) 60000"
      using Cons.prems True by (simp add: mqttReconnect_failed)
    then have le: "unat (mqttConnectDelay ?s') \<le> 60000" by simp
    have a': "occurrences Connect (trace ?s') = occurrences Connect (trace s) + 1"
      using Cons.prems True by (simp add: mqttReconnect_attempts)
    from Cons.IH [OF dis le] Cons.prems(3)
    obtain n where n: "occurrences Connect (trace (reconnects cs ?s')) = occurrences Connect (trace ?s') + n"
      "unat (mqttConnectDelay (reconnects cs ?s')) = min (unat (mqttConnectDelay ?s') + 1000 * n) 60000"
      by auto
    have "occurrences Connect (trace (reconnects (c # cs) s)) = occurrences Connect (trace s) + Suc n"
      using n(1) a' c ok by simp
    moreover have "unat (mqttConnectDelay (reconnects (c # cs) s)) =
        min (unat (mqttConnectDelay s) + 1000 * Suc n) 60000"
      using n(2) d' c ok by simp
    ultimately show ?thesis by blast
  next
    case False
    have d': "mqttConnectDelay ?s' = mqttConnectDelay s"
      using Cons.prems False by (simp add: mqttReconnect_failed)
    have a': "occurrences Connect (trace ?s') = occurrences Connect (trace s)"
      using False by (simp add: mqttReconnect_attempts)
    from Cons.IH [OF dis] Cons.prems d'
    obtain n where n: "occurrences Connect (trace (reconnects cs ?s')) = occurrences Connect (trace ?s') + n"
      "unat (mqttConnectDelay (reconnects cs ?s')) = min (unat (mqttConnectDelay ?s') + 1000 * n) 60000"
      by auto
    have "occurrences Connect (trace (reconnects (c # cs) s)) = occurrences Connect (trace s) + n"
      using n(1) a' c ok by simp
    moreover have "unat (mqttConnectDelay (reconnects (c # cs) s)) =
        min (unat (mqttConnectDelay s) + 1000 * n) 60000"
      using n(2) d' c ok by simp
    ultimately show ?thesis by blast
  qed
qed


text \<open>
  Claim C5. Starting from a delay of 0 and not connected, after any sequence of calls
  of \<open>mqttReconnect\<close> in which every attempt fails, the delay is
  \<open>min (1000 * i) 60000\<close> where \<open>i\<close> is the number of attempts made so far. A call
  makes an attempt exactly when the client is not connected and the unsigned time
  since the last attempt exceeds the delay. An attempt that succeeds subscribes and
  sets the delay to 0.
\<close>

theorem reconnect_backoff:
  assumes "mqttConnectDelay s = 0" "\<not> mqttConnected s" "\<forall>c \<in> set cs. \<not> snd (snd c)"
  shows
    "unat (mqttConnectDelay (reconnects cs s)) =
       min (1000 * (occurrences Connect (trace (reconnects cs s)) - occurrences Connect (trace s))) 60000 \<and>
     occurrences Connect (trace (snd (mqttReconnect t1 t2 ok r))) =
       occurrences Connect (trace r) +
       (if \<not> mqttConnected r \<and> mqttConnectDelay r < t1 - mqttConnectAttempt r then 1 else 0) \<and>
     (\<not> mqttConnected r \<and> mqttConnectDelay r < t1 - mqttConnectAttempt r \<longrightarrow>
        fst (mqttReconnect t1 t2 True r) \<and>
        mqttConnected (snd (mqttReconnect t1 t2 True r)) \<and>
        mqttConnectDelay (snd (mqttReconnect t1 t2 True r)) = 0 \<and>
        added r (snd (mqttReconnect t1 t2 True r)) = [Connect, Subscribe])"
proof -
  from reconnects_failed [OF assms(2) _ assms(3)] assms(1)
  obtain n where n: "occurrences Connect (trace (reconnects cs s)) = occurrences Connect (trace s) + n"
      "unat (mqttConnectDelay (reconnects cs s)) = min (unat (mqttConnectDelay s) + 1000 * n) 60000"
    by auto
  have "unat (mqttConnectDelay (reconnects cs s)) =
       min (1000 * (occurrences Connect (trace (reconnects cs s)) - occurrences Connect (trace s))) 60000"
    using n assms(1) by simp
  moreover have "\<not> mqttConnected r \<and> mqttConnectDelay r < t1 - mqttConnectAttempt r \<longrightarrow>
        fst (mqttReconnect t1 t2 True r) \<and>
        mqttConnected (snd (mqttReconnect t1 t2 True r)) \<and>
        mqttConnectDelay (snd (mqttReconnect t1 t2 True r)) = 0 \<and>
        added r (snd (mqttReconnect t1 t2 True r)) = [Connect, Subscribe]"
    by (simp add: mqttReconnect_def emit_def added_def Let_def)
  ultimately show ?thesis
    by (simp add: mqttReconnect_attempts)
qed


theorem reconnect_backoff_witness:
  "mqttConnectDelay booted = 0 \<and> \<not> mqttConnected booted \<and>
   occurrences Connect (trace booted) = 0 \<and>
   occurrences Connect (trace (reconnects three_refused booted)) = 2 \<and>
   unat (mqttConnectDelay (reconnects three_refused booted)) = 2000 \<and>
   \<not> mqttConnected (reconnects three_refused booted) \<and>
   mqttConnectDelay (snd (mqttReconnect 5000 5001 True (reconnects three_refused booted))) = 0"
proof -
  have h: "mqttConnectDelay booted = 0" "\<not> mqttConnected booted"
    "\<forall>c \<in> set three_refused. \<not> snd (snd c)"
    by (simp_all add: booted_eq three_refused_def)
  have r: "reconnects three_refused booted =
      booted\<lparr>mqttConnectDelay := 2000, mqttConnectAttempt := 2501, trace := trace booted @ [Connect, Connect]\<rparr>"
    unfolding booted_eq three_refused_def
    by (simp add: mqttReconnect_def emit_def Let_def)
  have g: "\<not> mqttConnected (reconnects three_refused booted)"
    "mqttConnectDelay (reconnects three_refused booted) < 5000 - mqttConnectAttempt (reconnects three_refused booted)"
    "occurrences Connect (trace booted) = 0"
    unfolding r by (simp_all add: booted_eq)
  show ?thesis
    using h(1,2) g(1,3)
      reconnect_backoff [OF h, of 5000 5001 True "reconnects three_refused booted"] g(2)
    unfolding r by simp
qed


section \<open>More variables left alone\<close>

lemma gpioLoop_frame [simp]:
  "offline (gpioLoop sw t1 a t2 s) = offline s"
  "otaRunning (gpioLoop sw t1 a t2 s) = otaRunning s"
  "otaStart (gpioLoop sw t1 a t2 s) = otaStart s"
  "restart (gpioLoop sw t1 a t2 s) = restart s"
  "mqttConnectAttempt (gpioLoop sw t1 a t2 s) = mqttConnectAttempt s"
  "mqttConnectDelay (gpioLoop sw t1 a t2 s) = mqttConnectDelay s"
  "momentarySwitch (gpioLoop sw t1 a t2 s) = momentarySwitch s"
  "ledRedPin (gpioLoop sw t1 a t2 s) = ledRedPin s"
  "mqttConnected (gpioLoop sw t1 a t2 s) = mqttConnected s"
  by (simp_all add: gpioLoop_def Let_def)

lemma saveParamsCallback_frame [simp]:
  "offline (saveParamsCallback v s) = offline s"
  "wifiManagerSetupRunning (saveParamsCallback v s) = wifiManagerSetupRunning s"
  "wifiManagerSetupStart (saveParamsCallback v s) = wifiManagerSetupStart s"
  "otaRunning (saveParamsCallback v s) = otaRunning s"
  "otaStart (saveParamsCallback v s) = otaStart s"
  "mqttConnectAttempt (saveParamsCallback v s) = mqttConnectAttempt s"
  "mqttConnectDelay (saveParamsCallback v s) = mqttConnectDelay s"
  "sState (saveParamsCallback v s) = sState s"
  "lState (saveParamsCallback v s) = lState s"
  "gpioTrigger (saveParamsCallback v s) = gpioTrigger s"
  "manualSetupActivatorTime (saveParamsCallback v s) = manualSetupActivatorTime s"
  "manualSetupModeCounter (saveParamsCallback v s) = manualSetupModeCounter s"
  "relayPin (saveParamsCallback v s) = relayPin s"
  "ledGreenPin (saveParamsCallback v s) = ledGreenPin s"
  "ledRedPin (saveParamsCallback v s) = ledRedPin s"
  "mqttConnected (saveParamsCallback v s) = mqttConnected s"
  by (simp_all add: saveParamsCallback_def wifiManagerSetupStopped_def emit_def)

lemma wifimanagerLoop_frame [simp]:
  "wifiManagerSetupRunning (wifimanagerLoop sv t up s) = wifiManagerSetupRunning s"
  "wifiManagerSetupStart (wifimanagerLoop sv t up s) = wifiManagerSetupStart s"
  "otaRunning (wifimanagerLoop sv t up s) = otaRunning s"
  "otaStart (wifimanagerLoop sv t up s) = otaStart s"
  "mqttConnectAttempt (wifimanagerLoop sv t up s) = mqttConnectAttempt s"
  "mqttConnectDelay (wifimanagerLoop sv t up s) = mqttConnectDelay s"
  "sState (wifimanagerLoop sv t up s) = sState s"
  "lState (wifimanagerLoop sv t up s) = lState s"
  "gpioTrigger (wifimanagerLoop sv t up s) = gpioTrigger s"
  "manualSetupActivatorTime (wifimanagerLoop sv t up s) = manualSetupActivatorTime s"
  "manualSetupModeCounter (wifimanagerLoop sv t up s) = manualSetupModeCounter s"
  "relayPin (wifimanagerLoop sv t up s) = relayPin s"
  "ledGreenPin (wifimanagerLoop sv t up s) = ledGreenPin s"
  "mqttConnected (wifimanagerLoop sv t up s) = mqttConnected s"
  by (simp_all add: wifimanagerLoop_def wifiManagerSetupStopped_def emit_def Let_def split: option.splits)

lemma mqttReconnect_frame [simp]:
  "offline (snd (mqttReconnect t1 t2 ok s)) = offline s"
  "wifiManagerSetupRunning (snd (mqttReconnect t1 t2 ok s)) = wifiManagerSetupRunning s"
  "wifiManagerSetupStart (snd (mqttReconnect t1 t2 ok s)) = wifiManagerSetupStart s"
  "otaRunning (snd (mqttReconnect t1 t2 ok s)) = otaRunning s"
  "otaStart (snd (mqttReconnect t1 t2 ok s)) = otaStart s"
  "restart (snd (mqttReconnect t1 t2 ok s)) = restart s"
  "momentarySwitch (snd (mqttReconnect t1 t2 ok s)) = momentarySwitch s"
  "sState (snd (mqttReconnect t1 t2 ok s)) = sState s"
  "lState (snd (mqttReconnect t1 t2 ok s)) = lState s"
  "gpioTrigger (snd (mqttReconnect t1 t2 ok s)) = gpioTrigger s"
  "manualSetupActivatorTime (snd (mqttReconnect t1 t2 ok s)) = manualSetupActivatorTime s"
  "manualSetupModeCounter (snd (mqttReconnect t1 t2 ok s)) = manualSetupModeCounter s"
  "relayPin (snd (mqttReconnect t1 t2 ok s)) = relayPin s"
  "ledGreenPin (snd (mqttReconnect t1 t2 ok s)) = ledGreenPin s"
  "ledRedPin (snd (mqttReconnect t1 t2 ok s)) = ledRedPin s"
  by (simp_all add: mqttReconnect_def emit_def Let_def)

lemma otaCommand_frame [simp]:
  "offline (otaCommand t s) = offline s"
  "wifiManagerSetupRunning (otaCommand t s) = wifiManagerSetupRunning s"
  "wifiManagerSetupStart (otaCommand t s) = wifiManagerSetupStart s"
  "restart (otaCommand t s) = restart s"
  "mqttConnectAttempt (otaCommand t s) = mqttConnectAttempt s"
  "mqttConnectDelay (otaCommand t s) = mqttConnectDelay s"
  "momentarySwitch (otaCommand t s) = momentarySwitch s"
  "sState (otaCommand t s) = sState s"
  "lState (otaCommand t s) = lState s"
  "gpioTrigger (otaCommand t s) = gpioTrigger s"
  "manualSetupActivatorTime (otaCommand t s) = manualSetupActivatorTime s"
  "manualSetupModeCounter (otaCommand t s) = manualSetupModeCounter s"
  "relayPin (otaCommand t s) = relayPin s"
  "ledGreenPin (otaCommand t s) = ledGreenPin s"
  "ledRedPin (otaCommand t s) = ledRedPin s"
  "mqttConnected (otaCommand t s) = mqttConnected s"
  by (simp_all add: otaCommand_def emit_def)

lemma perform_frame [simp]:
  "offline (perform a t act s) = offline s"
  "mqttConnectAttempt (perform a t act s) = mqttConnectAttempt s"
  "mqttConnectDelay (perform a t act s) = mqttConnectDelay s"
  "momentarySwitch (perform a t act s) = momentarySwitch s"
  "sState (perform a t act s) = sState s"
  "manualSetupActivatorTime (perform a t act s) = manualSetupActivatorTime s"
  "manualSetupModeCounter (perform a t act s) = manualSetupModeCounter s"
  "ledRedPin (perform a t act s) = ledRedPin s"
  "mqttConnected (perform a t act s) = mqttConnected s"
  by (cases act; simp)+

lemma mqttCallback_cases:
  "mqttCallback p a t s = s \<or> (\<exists>act. mqttCallback p a t s = perform a t act s)"
proof (cases "matching (payloadCopy p)")
  case Nil
  then show ?thesis by (simp add: mqttCallback_fold)
next
  case (Cons act rest)
  with matching_at_most_one [of "payloadCopy p"] have "rest = []" by simp
  with Cons show ?thesis by (auto simp: mqttCallback_fold)
qed

lemma mqttCallback_frame [simp]:
  "offline (mqttCallback p a t s) = offline s"
  "mqttConnectAttempt (mqttCallback p a t s) = mqttConnectAttempt s"
  "mqttConnectDelay (mqttCallback p a t s) = mqttConnectDelay s"
  "momentarySwitch (mqttCallback p a t s) = momentarySwitch s"
  "sState (mqttCallback p a t s) = sState s"
  "manualSetupActivatorTime (mqttCallback p a t s) = manualSetupActivatorTime s"
  "manualSetupModeCounter (mqttCallback p a t s) = manualSetupModeCounter s"
  "ledRedPin (mqttCallback p a t s) = ledRedPin s"
  "mqttConnected (mqttCallback p a t s) = mqttConnected s"
  using mqttCallback_cases [of p a t s] by auto

lemma deliver_frame [simp]:
  "offline (deliver m s) = offline s"
  "mqttConnectAttempt (deliver m s) = mqttConnectAttempt s"
  "mqttConnectDelay (deliver m s) = mqttConnectDelay s"
  "momentarySwitch (deliver m s) = momentarySwitch s"
  "sState (deliver m s) = sState s"
  "manualSetupActivatorTime (deliver m s) = manualSetupActivatorTime s"
  "manualSetupModeCounter (deliver m s) = manualSetupModeCounter s"
  "ledRedPin (deliver m s) = ledRedPin s"
  "mqttConnected (deliver m s) = mqttConnected s"
  by (simp_all add: deliver_def split: prod.splits)

lemma otaProgress_frame [simp]:
  "offline (otaProgress s) = offline s"
  "wifiManagerSetupRunning (otaProgress s) = wifiManagerSetupRunning s"
  "wifiManagerSetupStart (otaProgress s) = wifiManagerSetupStart s"
  "otaRunning (otaProgress s) = otaRunning s"
  "otaStart (otaProgress s) = otaStart s"
  "restart (otaProgress s) = restart s"
  "mqttConnectAttempt (otaProgress s) = mqttConnectAttempt s"
  "mqttConnectDelay (otaProgress s) = mqttConnectDelay s"
  "momentarySwitch (otaProgress s) = momentarySwitch s"
  "sState (otaProgress s) = sState s"
  "lState (otaProgress s) = lState s"
  "gpioTrigger (otaProgress s) = gpioTrigger s"
  "manualSetupActivatorTime (otaProgress s) = manualSetupActivatorTime s"
  "manualSetupModeCounter (otaProgress s) = manualSetupModeCounter s"
  "relayPin (otaProgress s) = relayPin s"
  "mqttConnected (otaProgress s) = mqttConnected s"
  "trace (otaProgress s) = trace s"
  by (simp_all add: otaProgress_def)

lemma fold_deliver_frame [simp]:
  "offline (fold deliver ms s) = offline s"
  "mqttConnectAttempt (fold deliver ms s) = mqttConnectAttempt s"
  "mqttConnectDelay (fold deliver ms s) = mqttConnectDelay s"
  "momentarySwitch (fold deliver ms s) = momentarySwitch s"
  "sState (fold deliver ms s) = sState s"
  "manualSetupActivatorTime (fold deliver ms s) = manualSetupActivatorTime s"
  "manualSetupModeCounter (fold deliver ms s) = manualSetupModeCounter s"
  "ledRedPin (fold deliver ms s) = ledRedPin s"
  "mqttConnected (fold deliver ms s) = mqttConnected s"
  by (induction ms arbitrary: s; simp)+

lemma clientLoop_frame [simp]:
  "offline (clientLoop ms s) = offline s"
  "mqttConnectAttempt (clientLoop ms s) = mqttConnectAttempt s"
  "mqttConnectDelay (clientLoop ms s) = mqttConnectDelay s"
  "momentarySwitch (clientLoop ms s) = momentarySwitch s"
  "sState (clientLoop ms s) = sState s"
  "manualSetupActivatorTime (clientLoop ms s) = manualSetupActivatorTime s"
  "manualSetupModeCounter (clientLoop ms s) = manualSetupModeCounter s"
  "ledRedPin (clientLoop ms s) = ledRedPin s"
  "mqttConnected (clientLoop ms s) = mqttConnected s"
  by (simp_all add: clientLoop_def emit_def)

lemma mqttLoop_frame [simp]:
  "offline (mqttLoop t1 t2 ok ms s) = offline s"
  "momentarySwitch (mqttLoop t1 t2 ok ms s) = momentarySwitch s"
  "sState (mqttLoop t1 t2 ok ms s) = sState s"
  "manualSetupActivatorTime (mqttLoop t1 t2 ok ms s) = manualSetupActivatorTime s"
  "manualSetupModeCounter (mqttLoop t1 t2 ok ms s) = manualSetupModeCounter s"
  "ledRedPin (mqttLoop t1 t2 ok ms s) = ledRedPin s"
  by (simp_all add: mqttLoop_def split: prod.splits bool.splits) (metis mqttReconnect_frame snd_conv)+

lemma otaProgress_pow_frame [simp]:
  "offline ((otaProgress ^^ n) s) = offline s"
  "wifiManagerSetupRunning ((otaProgress ^^ n) s) = wifiManagerSetupRunning s"
  "wifiManagerSetupStart ((otaProgress ^^ n) s) = wifiManagerSetupStart s"
  "otaRunning ((otaProgress ^^ n) s) = otaRunning s"
  "otaStart ((otaProgress ^^ n) s) = otaStart s"
  "restart ((otaProgress ^^ n) s) = restart s"
  "mqttConnectAttempt ((otaProgress ^^ n) s) = mqttConnectAttempt s"
  "mqttConnectDelay ((otaProgress ^^ n) s) = mqttConnectDelay s"
  "momentarySwitch ((otaProgress ^^ n) s) = momentarySwitch s"
  "sState ((otaProgress ^^ n) s) = sState s"
  "lState ((otaProgress ^^ n) s) = lState s"
  "gpioTrigger ((otaProgress ^^ n) s) = gpioTrigger s"
  "manualSetupActivatorTime ((otaProgress ^^ n) s) = manualSetupActivatorTime s"
  "manualSetupModeCounter ((otaProgress ^^ n) s) = manualSetupModeCounter s"
  "relayPin ((otaProgress ^^ n) s) = relayPin s"
  "mqttConnected ((otaProgress ^^ n) s) = mqttConnected s"
  "trace ((otaProgress ^^ n) s) = trace s"
  by (induction n; simp)+

lemma otaHandle_frame [simp]:
  "offline (otaHandle n s) = offline s"
  "wifiManagerSetupRunning (otaHandle n s) = wifiManagerSetupRunning s"
  "wifiManagerSetupStart (otaHandle n s) = wifiManagerSetupStart s"
  "otaRunning (otaHandle n s) = otaRunning s"
  "otaStart (otaHandle n s) = otaStart s"
  "restart (otaHandle n s) = restart s"
  "mqttConnectAttempt (otaHandle n s) = mqttConnectAttempt s"
  "mqttConnectDelay (otaHandle n s) = mqttConnectDelay s"
  "momentarySwitch (otaHandle n s) = momentarySwitch s"
  "sState (otaHandle n s) = sState s"
  "lState (otaHandle n s) = lState s"
  "gpioTrigger (otaHandle n s) = gpioTrigger s"
  "manualSetupActivatorTime (otaHandle n s) = manualSetupActivatorTime s"
  "manualSetupModeCounter (otaHandle n s) = manualSetupModeCounter s"
  "relayPin (otaHandle n s) = relayPin s"
  "mqttConnected (otaHandle n s) = mqttConnected s"
  by (simp_all add: otaHandle_def emit_def)

section \<open>The mode timeouts\<close>

lemma elapsed_word:
  fixes T :: u32
  assumes "e < 2 ^ 32"
  shows "((T + of_nat e) - T > 300000) = (300000 < e)"
proof -
  have "unat (of_nat e :: u32) = e"
    using assms by (simp add: unat_of_nat)
  then show ?thesis
    by (simp add: word_less_nat_alt)
qed

lemma gpioLoop_quiet: "gpioLoop (sState s) t1 a t2 s = s"
  by (simp add: gpioLoop_unchanged sChanged_def)

lemma wifimanagerLoop_quiet:
  "restart (wifimanagerLoop None t up s) =
     (restart s \<or> (wifiManagerSetupRunning s \<and> t - wifiManagerSetupStart s > 300000))"
  "occurrences EspRestart (trace (wifimanagerLoop sv t up s)) = occurrences EspRestart (trace s)"
  by (auto simp add: wifimanagerLoop_def saveParamsCallback_def wifiManagerSetupStopped_def emit_def
        CONFIG_TIMEOUT_MS_def Let_def split: option.splits)

lemma mqttReconnect_quiet:
  "occurrences EspRestart (trace (snd (mqttReconnect t1 t2 ok s))) = occurrences EspRestart (trace s)"
  by (simp add: mqttReconnect_def emit_def Let_def)

lemma mqttLoop_quiet:
  "restart (mqttLoop t1 t2 ok [] s) = restart s"
  "wifiManagerSetupRunning (mqttLoop t1 t2 ok [] s) = wifiManagerSetupRunning s"
  "wifiManagerSetupStart (mqttLoop t1 t2 ok [] s) = wifiManagerSetupStart s"
  "otaRunning (mqttLoop t1 t2 ok [] s) = otaRunning s"
  "otaStart (mqttLoop t1 t2 ok [] s) = otaStart s"
  "occurrences EspRestart (trace (mqttLoop t1 t2 ok [] s)) = occurrences EspRestart (trace s)"
  by (simp_all add: mqttLoop_def mqttReconnect_def clientLoop_def emit_def Let_def)

lemma provisioning_tick:
  assumes "wifiManagerSetupRunning s" "\<not> otaRunning s" "\<not> restart s" "quiet (sState s) i"
  shows "restart (loop i s) = (tSetup i - wifiManagerSetupStart s > 300000)"
    and "occurrences EspRestart (trace (loop i s)) =
           occurrences EspRestart (trace s) +
           (if tSetup i - wifiManagerSetupStart s > 300000 then 1 else 0)"
    and "wifiManagerSetupRunning (loop i s)"
    and "wifiManagerSetupStart (loop i s) = wifiManagerSetupStart s"
    and "\<not> otaRunning (loop i s)"
    and "sState (loop i s) = sState s"
proof -
  define w where "w = wifimanagerLoop None (tSetup i) (wifiUp i) s"
  define m where "m = (if \<not> offline w then mqttLoop (tRec1 i) (tRec2 i) (connectOk i) [] w else w)"
  have n: "normalWork i s = emit (DelayMs LOOP_DELAY_MS) m"
    using assms(4) by (simp add: normalWork_def quiet_def gpioLoop_quiet w_def m_def Let_def)
  have w: "restart w = (tSetup i - wifiManagerSetupStart s > 300000)"
    "occurrences EspRestart (trace w) = occurrences EspRestart (trace s)"
    "wifiManagerSetupRunning w" "wifiManagerSetupStart w = wifiManagerSetupStart s"
    "\<not> otaRunning w" "sState w = sState s"
    using assms by (simp_all add: w_def wifimanagerLoop_quiet)
  have m: "restart m = (tSetup i - wifiManagerSetupStart s > 300000)"
    "occurrences EspRestart (trace m) = occurrences EspRestart (trace s)"
    "wifiManagerSetupRunning m" "wifiManagerSetupStart m = wifiManagerSetupStart s"
    "\<not> otaRunning m" "sState m = sState s"
    using w by (simp_all add: m_def mqttLoop_quiet)
  show "restart (loop i s) = (tSetup i - wifiManagerSetupStart s > 300000)"
    and "occurrences EspRestart (trace (loop i s)) =
           occurrences EspRestart (trace s) +
           (if tSetup i - wifiManagerSetupStart s > 300000 then 1 else 0)"
    and "wifiManagerSetupRunning (loop i s)"
    and "wifiManagerSetupStart (loop i s) = wifiManagerSetupStart s"
    and "\<not> otaRunning (loop i s)"
    and "sState (loop i s) = sState s"
    using assms(2) m by (simp_all add: loop_def n emit_def Let_def)
qed

lemma update_tick:
  assumes "otaRunning s" "\<not> restart s" "quiet sw i"
  shows "restart (loop i s) = (tOta i - otaStart s > 300000)"
    and "occurrences EspRestart (trace (loop i s)) =
           occurrences EspRestart (trace s) + (if tOta i - otaStart s > 300000 then 1 else 0)"
    and "otaRunning (loop i s)"
    and "otaStart (loop i s) = otaStart s"
    and "sState (loop i s) = sState s"
    and "added s (loop i s) = OtaHandle # (if tOta i - otaStart s > 300000 then [EspRestart] else [])"
  using assms
  by (simp_all add: loop_def otaWork_def otaHandle_def quiet_def emit_def added_def OTA_TIMEOUT_MS_def Let_def)

lemma provisioning_run:
  assumes "wifiManagerSetupRunning s" "\<not> otaRunning s" "\<not> restart s"
    and "\<forall>i \<in> set is. quiet (sState s) i \<and> \<not> tSetup i - wifiManagerSetupStart s > 300000"
  shows "wifiManagerSetupRunning (run is s) \<and> \<not> otaRunning (run is s) \<and> \<not> restart (run is s) \<and>
         wifiManagerSetupStart (run is s) = wifiManagerSetupStart s \<and> sState (run is s) = sState s \<and>
         occurrences EspRestart (trace (run is s)) = occurrences EspRestart (trace s)"
  using assms
proof (induction "is" arbitrary: s)
  case Nil
  then show ?case by simp
next
  case (Cons i "is")
  from Cons.prems have q: "quiet (sState s) i" and early: "\<not> tSetup i - wifiManagerSetupStart s > 300000"
    by simp_all
  note t = provisioning_tick [OF Cons.prems(1-3) q]
  have "wifiManagerSetupRunning (run is (loop i s)) \<and> \<not> otaRunning (run is (loop i s)) \<and>
      \<not> restart (run is (loop i s)) \<and>
      wifiManagerSetupStart (run is (loop i s)) = wifiManagerSetupStart (loop i s) \<and>
      sState (run is (loop i s)) = sState (loop i s) \<and>
      occurrences EspRestart (trace (run is (loop i s))) = occurrences EspRestart (trace (loop i s))"
    using Cons.prems(4) t early by (intro Cons.IH) simp_all
  then show ?case using t early by simp
qed

lemma update_run:
  assumes "otaRunning s" "\<not> restart s"
    and "\<forall>i \<in> set is. quiet sw i \<and> \<not> tOta i - otaStart s > 300000"
  shows "otaRunning (run is s) \<and> \<not> restart (run is s) \<and> otaStart (run is s) = otaStart s \<and>
         occurrences EspRestart (trace (run is s)) = occurrences EspRestart (trace s)"
  using assms
proof (induction "is" arbitrary: s)
  case Nil
  then show ?case by simp
next
  case (Cons i "is")
  from Cons.prems have q: "quiet sw i" and early: "\<not> tOta i - otaStart s > 300000"
    by simp_all
  note t = update_tick [OF Cons.prems(1,2) q]
  have "otaRunning (run is (loop i s)) \<and> \<not> restart (run is (loop i s)) \<and>
      otaStart (run is (loop i s)) = otaStart (loop i s) \<and>
      occurrences EspRestart (trace (run is (loop i s))) = occurrences EspRestart (trace (loop i s))"
    using Cons.prems(3) t early by (intro Cons.IH) simp_all
  then show ?case using t early by simp
qed


lemma provisioning_eq:
  "provisioning =
    \<lparr>offline = False, wifiManagerSetupRunning = True,
    wifiManagerSetupStart = 2000, otaRunning = False, otaStart = 0,
    restart = False, mqttConnectAttempt = 1000, mqttConnectDelay = 0,
    momentarySwitch = False, sState = False, lState = False,
    gpioTrigger = False, manualSetupActivatorTime = 0,
    manualSetupModeCounter = 0, relayPin = False, ledGreenPin = True,
    ledRedPin = True, mqttConnected = True,
    trace =
      [StartWifiManager False, AutoConnect, WmProcess, SetServer, MdnsLoop,
       Connect, Subscribe, ClientLoop, DelayMs 10, WmProcess, MdnsLoop,
       ClientLoop, StartWifiManager True, StartConfigPortal,
       TickerAttach 1000, DelayMs 10]\<rparr>"
  unfolding provisioning_def online_eq
  by (simp add: op_defs)

lemma updating_eq:
  "updating =
    \<lparr>offline = False, wifiManagerSetupRunning = False,
    wifiManagerSetupStart = 0, otaRunning = True, otaStart = 2000,
    restart = False, mqttConnectAttempt = 1000, mqttConnectDelay = 0,
    momentarySwitch = False, sState = False, lState = False,
    gpioTrigger = False, manualSetupActivatorTime = 0,
    manualSetupModeCounter = 0, relayPin = False, ledGreenPin = True,
    ledRedPin = True, mqttConnected = True,
    trace =
      [StartWifiManager False, AutoConnect, WmProcess, SetServer, MdnsLoop,
       Connect, Subscribe, ClientLoop, DelayMs 10, WmProcess, MdnsLoop,
       ClientLoop, TickerAttach 300, OtaBegin, DelayMs 10]\<rparr>"
  unfolding updating_def online_eq
  by (simp add: op_defs)

lemma provisioning_late_facts:
  "wifiManagerSetupRunning provisioning_late" "\<not> otaRunning provisioning_late"
  "\<not> restart provisioning_late" "sState provisioning_late = False"
  "wifiManagerSetupStart provisioning_late = 4294967040"
  "occurrences EspRestart (trace provisioning_late) = 0"
  unfolding provisioning_late_def online_eq
  by (simp_all add: op_defs)

lemma updating_facts:
  "otaRunning updating" "\<not> restart updating" "otaStart updating = 2000"
  "occurrences EspRestart (trace updating) = 0"
  by (simp_all add: updating_eq)


text \<open>
  Claim C6. Let the device be in provisioning mode (and not in update mode), or in
  update mode, entered at clock \<open>T\<close>, with no restart pending, and let nothing reach it:
  every pass is quiet. Through any passes made at most 300000 ms after \<open>T\<close> no restart
  is requested and \<open>ESP.restart\<close> is not called; in a pass made \<open>e\<close> ms after \<open>T\<close>,
  \<open>e\<close> below \<open>2 ^ 32\<close>, the restart is requested and executed exactly when \<open>e\<close> exceeds
  300000. The clock of a pass is \<open>T + e\<close> in 32-bit arithmetic, so the statement covers
  a counter that has wrapped since \<open>T\<close>.
\<close>

theorem mode_timeout_restart:
  assumes "\<not> restart s" "e < 2 ^ 32"
  shows
    "(wifiManagerSetupRunning s \<and> \<not> otaRunning s \<and>
      (\<forall>i \<in> set ts. quiet (sState s) i \<and> (\<exists>d \<le> 300000. tSetup i = wifiManagerSetupStart s + of_nat d)) \<and>
      quiet (sState s) j \<and> tSetup j = wifiManagerSetupStart s + of_nat e \<longrightarrow>
        \<not> restart (run ts s) \<and>
        occurrences EspRestart (trace (run ts s)) = occurrences EspRestart (trace s) \<and>
        restart (loop j (run ts s)) = (300000 < e) \<and>
        occurrences EspRestart (trace (loop j (run ts s))) =
          occurrences EspRestart (trace s) + (if 300000 < e then 1 else 0)) \<and>
     (otaRunning s \<and>
      (\<forall>i \<in> set ts. quiet sw i \<and> (\<exists>d \<le> 300000. tOta i = otaStart s + of_nat d)) \<and>
      quiet sw j \<and> tOta j = otaStart s + of_nat e \<longrightarrow>
        \<not> restart (run ts s) \<and>
        occurrences EspRestart (trace (run ts s)) = occurrences EspRestart (trace s) \<and>
        restart (loop j (run ts s)) = (300000 < e) \<and>
        occurrences EspRestart (trace (loop j (run ts s))) =
          occurrences EspRestart (trace s) + (if 300000 < e then 1 else 0))"
proof (intro conjI impI)
  assume h: "wifiManagerSetupRunning s \<and> \<not> otaRunning s \<and>
      (\<forall>i \<in> set ts. quiet (sState s) i \<and> (\<exists>d \<le> 300000. tSetup i = wifiManagerSetupStart s + of_nat d)) \<and>
      quiet (sState s) j \<and> tSetup j = wifiManagerSetupStart s + of_nat e"
  have early: "\<forall>i \<in> set ts. quiet (sState s) i \<and> \<not> tSetup i - wifiManagerSetupStart s > 300000"
  proof
    fix i assume "i \<in> set ts"
    with h obtain d where q: "quiet (sState s) i" and d: "d \<le> 300000"
      "tSetup i = wifiManagerSetupStart s + of_nat d" by blast
    from d(1) have "d < 2 ^ 32" by simp
    from elapsed_word [OF this, of "wifiManagerSetupStart s"] d
    have "\<not> tSetup i - wifiManagerSetupStart s > 300000" by simp
    with q show "quiet (sState s) i \<and> \<not> tSetup i - wifiManagerSetupStart s > 300000" ..
  qed
  from h assms(1) have pre: "wifiManagerSetupRunning s" "\<not> otaRunning s" "\<not> restart s" by simp_all
  note r = provisioning_run [OF pre early]
  from r h have q: "quiet (sState (run ts s)) j" by simp
  from r have pre': "wifiManagerSetupRunning (run ts s)" "\<not> otaRunning (run ts s)" "\<not> restart (run ts s)"
    by simp_all
  note t = provisioning_tick [OF pre' q]
  have late: "(tSetup j - wifiManagerSetupStart (run ts s) > 300000) = (300000 < e)"
    using r h elapsed_word [OF assms(2), of "wifiManagerSetupStart s"] by simp
  show "\<not> restart (run ts s)" using r by simp
  show "occurrences EspRestart (trace (run ts s)) = occurrences EspRestart (trace s)" using r by simp
  show "restart (loop j (run ts s)) = (300000 < e)" using t(1) late by simp
  show "occurrences EspRestart (trace (loop j (run ts s))) =
          occurrences EspRestart (trace s) + (if 300000 < e then 1 else 0)"
    using t(2) late r by simp
next
  assume h: "otaRunning s \<and>
      (\<forall>i \<in> set ts. quiet sw i \<and> (\<exists>d \<le> 300000. tOta i = otaStart s + of_nat d)) \<and>
      quiet sw j \<and> tOta j = otaStart s + of_nat e"
  have early: "\<forall>i \<in> set ts. quiet sw i \<and> \<not> tOta i - otaStart s > 300000"
  proof
    fix i assume "i \<in> set ts"
    with h obtain d where q: "quiet sw i" and d: "d \<le> 300000"
      "tOta i = otaStart s + of_nat d" by blast
    from d(1) have "d < 2 ^ 32" by simp
    from elapsed_word [OF this, of "otaStart s"] d
    have "\<not> tOta i - otaStart s > 300000" by simp
    with q show "quiet sw i \<and> \<not> tOta i - otaStart s > 300000" ..
  qed
  from h assms(1) have pre: "otaRunning s" "\<not> restart s" by simp_all
  note r = update_run [OF pre early]
  from h have q: "quiet sw j" by simp
  from r have pre': "otaRunning (run ts s)" "\<not> restart (run ts s)" by simp_all
  note t = update_tick [OF pre' q]
  have late: "(tOta j - otaStart (run ts s) > 300000) = (300000 < e)"
    using r h elapsed_word [OF assms(2), of "otaStart s"] by simp
  show "\<not> restart (run ts s)" using r by simp
  show "occurrences EspRestart (trace (run ts s)) = occurrences EspRestart (trace s)" using r by simp
  show "restart (loop j (run ts s)) = (300000 < e)" using t(1) late by simp
  show "occurrences EspRestart (trace (loop j (run ts s))) =
          occurrences EspRestart (trace s) + (if 300000 < e then 1 else 0)"
    using t(2) late r by simp
qed

theorem mode_timeout_restart_witness:
  "wifiManagerSetupRunning provisioning_late \<and> \<not> otaRunning provisioning_late \<and>
   \<not> restart provisioning_late \<and> wifiManagerSetupStart provisioning_late = 4294967040 \<and>
   \<not> restart (run [idle False False 4294967290, idle False False 299744] provisioning_late) \<and>
   restart (loop (idle False False 299745)
              (run [idle False False 4294967290, idle False False 299744] provisioning_late)) \<and>
   occurrences EspRestart (trace (loop (idle False False 299745)
              (run [idle False False 4294967290, idle False False 299744] provisioning_late))) = 1 \<and>
   otaRunning updating \<and> \<not> restart updating \<and> otaStart updating = 2000 \<and>
   \<not> restart (run [idle False True 302000] updating) \<and>
   restart (loop (idle False True 302001) (run [idle False True 302000] updating))"
proof -
  have e: "(300001 :: nat) < 2 ^ 32" by simp
  have q: "quiet False (idle False False 4294967290)" "quiet False (idle False False 299744)"
    "quiet False (idle False False 299745)" "quiet False (idle False True 302000)"
    "quiet False (idle False True 302001)"
    by (simp_all add: quiet_def idle_def)
  have x1: "\<exists>d \<le> 300000. tSetup (idle False False 4294967290) =
      wifiManagerSetupStart provisioning_late + of_nat d"
    by (rule exI [of _ 250]) (simp add: provisioning_late_facts idle_def)
  have x2: "\<exists>d \<le> 300000. tSetup (idle False False 299744) =
      wifiManagerSetupStart provisioning_late + of_nat d"
    by (rule exI [of _ 300000]) (simp add: provisioning_late_facts idle_def)
  have d1: "\<forall>i \<in> set [idle False False 4294967290, idle False False 299744].
      quiet (sState provisioning_late) i \<and>
      (\<exists>d \<le> 300000. tSetup i = wifiManagerSetupStart provisioning_late + of_nat d)"
    using x1 x2 q by (simp add: provisioning_late_facts(4))
  have j1: "tSetup (idle False False 299745) = wifiManagerSetupStart provisioning_late + of_nat 300001"
    by (simp add: provisioning_late_facts idle_def)
  have x3: "\<exists>d \<le> 300000. tOta (idle False True 302000) = otaStart updating + of_nat d"
    by (rule exI [of _ 300000]) (simp add: updating_facts idle_def)
  have d2: "\<forall>i \<in> set [idle False True 302000].
      quiet False i \<and> (\<exists>d \<le> 300000. tOta i = otaStart updating + of_nat d)"
    using x3 q by simp
  have j2: "tOta (idle False True 302001) = otaStart updating + of_nat 300001"
    by (simp add: updating_facts idle_def)
  note a = mode_timeout_restart [OF provisioning_late_facts(3) e,
      of "[idle False False 4294967290, idle False False 299744]" "idle False False 299745"]
  note b = mode_timeout_restart [OF updating_facts(2) e, of "[idle False True 302000]" "idle False True 302001" False]
  have "\<not> restart (run [idle False False 4294967290, idle False False 299744] provisioning_late) \<and>
   restart (loop (idle False False 299745)
              (run [idle False False 4294967290, idle False False 299744] provisioning_late)) \<and>
   occurrences EspRestart (trace (loop (idle False False 299745)
              (run [idle False False 4294967290, idle False False 299744] provisioning_late))) = 1"
    using a d1 j1 q provisioning_late_facts by simp
  moreover have "\<not> restart (run [idle False True 302000] updating) \<and>
   restart (loop (idle False True 302001) (run [idle False True 302000] updating))"
    using b d2 j2 q updating_facts by simp
  ultimately show ?thesis
    using provisioning_late_facts updating_facts by simp
qed


section \<open>The relay output, the green LED and \<open>lState\<close>\<close>

lemma follows_relay_ops [simp]:
  "relay_follows (enableL s)" "relay_follows (disableL s)"
  "green_follows (enableL s)" "green_follows (disableL s)"
  by (simp_all add: relay_follows_def green_follows_def)

lemma follows_frames [simp]:
  "relay_follows (mqttCommunicate s) = relay_follows s"
  "green_follows (mqttCommunicate s) = green_follows s"
  "relay_follows (gestureAction t1 a t2 s) = relay_follows s"
  "green_follows (gestureAction t1 a t2 s) = green_follows s"
  "relay_follows (startWifiManager d cfg a s) = relay_follows s"
  "green_follows (startWifiManager d cfg a s) = green_follows s"
  "relay_follows (wifimanagerLoop sv t up s) = relay_follows s"
  "green_follows (wifimanagerLoop sv t up s) = green_follows s"
  "relay_follows (snd (mqttReconnect u1 u2 ok s)) = relay_follows s"
  "green_follows (snd (mqttReconnect u1 u2 ok s)) = green_follows s"
  "relay_follows (otaCommand t s) = relay_follows s"
  "green_follows (otaCommand t s) = green_follows s"
  "relay_follows (otaHandle n s) = relay_follows s"
  "relay_follows (otaProgress s) = relay_follows s"
  "relay_follows (emit e s) = relay_follows s"
  "green_follows (emit e s) = green_follows s"
  "relay_follows (ledTick s) = relay_follows s"
  "green_follows (ledTick s) = green_follows s"
  "relay_follows (saveParamsCallback v s) = relay_follows s"
  "green_follows (saveParamsCallback v s) = green_follows s"
  by (simp_all add: relay_follows_def green_follows_def emit_def ledTick_def)

lemma follows_update [simp]:
  "relay_follows (s\<lparr>sState := x\<rparr>) = relay_follows s"
  "green_follows (s\<lparr>sState := x\<rparr>) = green_follows s"
  "relay_follows (s\<lparr>gpioTrigger := y\<rparr>) = relay_follows s"
  "green_follows (s\<lparr>gpioTrigger := y\<rparr>) = green_follows s"
  "relay_follows (s\<lparr>restart := z\<rparr>) = relay_follows s"
  "green_follows (s\<lparr>restart := z\<rparr>) = green_follows s"
  by (simp_all add: relay_follows_def green_follows_def)

lemma relay_follows_switchAction: "relay_follows s \<Longrightarrow> relay_follows (switchAction s)"
  by (simp add: switchAction_def Let_def)

lemma green_follows_switchAction: "green_follows s \<Longrightarrow> green_follows (switchAction s)"
  by (simp add: switchAction_def Let_def)

lemma relay_follows_gpioLoop: "relay_follows s \<Longrightarrow> relay_follows (gpioLoop sw t1 a t2 s)"
  by (cases "sChanged sw s")
     (simp_all add: gpioLoop_unchanged gpioLoop_changed relay_follows_switchAction)

lemma green_follows_gpioLoop: "green_follows s \<Longrightarrow> green_follows (gpioLoop sw t1 a t2 s)"
  by (cases "sChanged sw s")
     (simp_all add: gpioLoop_unchanged gpioLoop_changed green_follows_switchAction)

lemma relay_follows_perform: "relay_follows s \<Longrightarrow> relay_follows (perform a t act s)"
  by (cases act) simp_all

lemma green_follows_perform: "green_follows s \<Longrightarrow> green_follows (perform a t act s)"
  by (cases act) simp_all

lemma relay_follows_mqttCallback: "relay_follows s \<Longrightarrow> relay_follows (mqttCallback p a t s)"
  using mqttCallback_cases [of p a t s] by (auto simp: relay_follows_perform)

lemma green_follows_mqttCallback: "green_follows s \<Longrightarrow> green_follows (mqttCallback p a t s)"
  using mqttCallback_cases [of p a t s] by (auto simp: green_follows_perform)

lemma relay_follows_fold_deliver: "relay_follows s \<Longrightarrow> relay_follows (fold deliver ms s)"
  by (induction ms arbitrary: s) (simp_all add: deliver_def relay_follows_mqttCallback split: prod.splits)

lemma green_follows_fold_deliver: "green_follows s \<Longrightarrow> green_follows (fold deliver ms s)"
  by (induction ms arbitrary: s) (simp_all add: deliver_def green_follows_mqttCallback split: prod.splits)

lemma follows_mqttLoop:
  "relay_follows s \<Longrightarrow> relay_follows (mqttLoop t1 t2 ok ms s)"
  "green_follows s \<Longrightarrow> green_follows (mqttLoop t1 t2 ok ms s)"
proof -
  have r: "relay_follows s \<Longrightarrow> relay_follows (snd (mqttReconnect t1 t2 ok s))"
    and g: "green_follows s \<Longrightarrow> green_follows (snd (mqttReconnect t1 t2 ok s))"
    by simp_all
  show "relay_follows s \<Longrightarrow> relay_follows (mqttLoop t1 t2 ok ms s)"
    using r by (cases "mqttReconnect t1 t2 ok s")
      (auto simp: mqttLoop_def clientLoop_def relay_follows_fold_deliver split: bool.splits)
  show "green_follows s \<Longrightarrow> green_follows (mqttLoop t1 t2 ok ms s)"
    using g by (cases "mqttReconnect t1 t2 ok s")
      (auto simp: mqttLoop_def clientLoop_def green_follows_fold_deliver split: bool.splits)
qed

lemma follows_loop:
  "relay_follows s \<Longrightarrow> relay_follows (loop i s)"
  "green_follows s \<Longrightarrow> \<not> (otaRunning s \<and> 0 < otaBlocks i) \<Longrightarrow> green_follows (loop i s)"
proof -
  assume r: "relay_follows s"
  show "relay_follows (loop i s)"
  proof (cases "otaRunning s")
    case True
    then show ?thesis using r by (simp add: loop_def otaWork_def Let_def relay_follows_def emit_def)
  next
    case False
    then show ?thesis using r
      by (simp add: loop_def normalWork_def Let_def follows_mqttLoop relay_follows_gpioLoop green_follows_gpioLoop)
  qed
next
  assume g: "green_follows s" and b: "\<not> (otaRunning s \<and> 0 < otaBlocks i)"
  show "green_follows (loop i s)"
  proof (cases "otaRunning s")
    case True
    with b have "otaBlocks i = 0" by simp
    then show ?thesis using g True
      by (simp add: loop_def otaWork_def otaHandle_def Let_def green_follows_def emit_def)
  next
    case False
    then show ?thesis using g
      by (simp add: loop_def normalWork_def Let_def follows_mqttLoop relay_follows_gpioLoop green_follows_gpioLoop)
  qed
qed

lemma follows_setup:
  "relay_follows (setup_dozy sw cfg a power_on)" "green_follows (setup_dozy sw cfg a power_on)"
  by (simp_all add: setup_dozy_def power_on_def relay_follows_def green_follows_def)

lemma follows_happenings:
  "relay_follows s \<Longrightarrow> relay_follows (happenings hs s)"
  "green_follows s \<Longrightarrow> \<forall>h \<in> set hs. no_blocks h \<Longrightarrow> green_follows (happenings hs s)"
proof (induction hs arbitrary: s)
  case Nil
  { case 1 then show ?case by simp }
  { case 2 then show ?case by simp }
next
  case (Cons h hs)
  { case 1 then show ?case using Cons.IH(1) by (cases h) (simp_all add: follows_loop) }
  { case 2 then show ?case using Cons.IH(2) by (cases h) (simp_all add: follows_loop) }
qed


lemma demo_run:
  "lState (happenings demo (setup_dozy False None None power_on))"
  "relayPin (happenings demo (setup_dozy False None None power_on))"
  "\<not> ledGreenPin (happenings demo (setup_dozy False None None power_on))"
proof -
  have e: "happenings demo (setup_dozy False None None power_on) = ledTick (loop (idle True True 1100) online)"
    by (simp add: demo_def online_def booted_def)
  show "lState (happenings demo (setup_dozy False None None power_on))"
    "relayPin (happenings demo (setup_dozy False None None power_on))"
    "\<not> ledGreenPin (happenings demo (setup_dozy False None None power_on))"
    unfolding e online_eq by (simp_all add: op_defs ledTick_def)
qed


text \<open>
  Claim C10, as amended. After \<open>setup()\<close>, whatever passes of \<open>loop\<close> and calls of
  \<open>ledTick\<close> follow, the relay output is HIGH exactly when \<open>lState\<close> is true; and the
  green LED is lit exactly when \<open>lState\<close> is true as long as no update block is
  received (the progress callback of the update is the one place that switches the
  green LED on its own). \<open>enableL\<close> and \<open>disableL\<close> set the relay output, the green LED
  and \<open>lState\<close> together; the other functions that do not call them leave the relay
  output and \<open>lState\<close> as they are. The output latch of the relay pin is taken to be
  LOW at power-on.
\<close>

theorem relay_follows_lState:
  "relay_follows (happenings hs (setup_dozy sw cfg a power_on)) \<and>
   ((\<forall>h \<in> set hs. no_blocks h) \<longrightarrow> green_follows (happenings hs (setup_dozy sw cfg a power_on))) \<and>
   (relay_follows s \<longrightarrow> relay_follows (loop i s) \<and> relay_follows (ledTick s)) \<and>
   (green_follows s \<and> \<not> (otaRunning s \<and> 0 < otaBlocks i) \<longrightarrow> green_follows (loop i s)) \<and>
   (green_follows s \<longrightarrow> green_follows (ledTick s)) \<and>
   relay_follows (enableL s) \<and> green_follows (enableL s) \<and>
   relay_follows (disableL s) \<and> green_follows (disableL s) \<and>
   relayPin (mqttCommunicate s) = relayPin s \<and> lState (mqttCommunicate s) = lState s \<and>
   relayPin (startWifiManager d cfg' a' s) = relayPin s \<and> lState (startWifiManager d cfg' a' s) = lState s \<and>
   relayPin (gestureAction t1 a' t2 s) = relayPin s \<and> lState (gestureAction t1 a' t2 s) = lState s \<and>
   relayPin (wifimanagerLoop sv t up s) = relayPin s \<and> lState (wifimanagerLoop sv t up s) = lState s \<and>
   relayPin (snd (mqttReconnect t1 t2 ok s)) = relayPin s \<and> lState (snd (mqttReconnect t1 t2 ok s)) = lState s \<and>
   relayPin (otaCommand t s) = relayPin s \<and> lState (otaCommand t s) = lState s \<and>
   relayPin (otaHandle n s) = relayPin s \<and> lState (otaHandle n s) = lState s \<and>
   relayPin (saveParamsCallback v s) = relayPin s \<and> lState (saveParamsCallback v s) = lState s \<and>
   relayPin (ledTick s) = relayPin s \<and> lState (ledTick s) = lState s"
proof -
  have "relay_follows (happenings hs (setup_dozy sw cfg a power_on))"
    by (simp add: follows_happenings follows_setup)
  moreover have "(\<forall>h \<in> set hs. no_blocks h) \<longrightarrow> green_follows (happenings hs (setup_dozy sw cfg a power_on))"
    by (simp add: follows_happenings follows_setup)
  moreover have "relay_follows s \<longrightarrow> relay_follows (loop i s) \<and> relay_follows (ledTick s)"
    by (simp add: follows_loop)
  moreover have "green_follows s \<and> \<not> (otaRunning s \<and> 0 < otaBlocks i) \<longrightarrow> green_follows (loop i s)"
    using follows_loop(2) [of s i] by blast
  moreover have "relayPin (ledTick s) = relayPin s \<and> lState (ledTick s) = lState s"
    by (simp add: ledTick_def)
  ultimately show ?thesis
    by simp
qed

theorem relay_follows_lState_witness:
  "lState (happenings demo (setup_dozy False None None power_on)) \<and>
   relayPin (happenings demo (setup_dozy False None None power_on)) \<and>
   \<not> ledGreenPin (happenings demo (setup_dozy False None None power_on)) \<and>
   relay_follows (happenings demo (setup_dozy False None None power_on)) \<and>
   green_follows (happenings demo (setup_dozy False None None power_on))"
proof -
  have "\<forall>h \<in> set demo. no_blocks h"
    by (simp add: demo_def idle_def)
  then show ?thesis
    using relay_follows_lState [of demo False None None] demo_run by blast
qed

text \<open>
  The claim as it was stated fails for the green LED: in update mode the progress
  callback switches the green LED with the red one, so after the command \<open>ota\<close> and
  two blocks the green LED is lit while \<open>lState\<close> is false.
\<close>

theorem green_led_counterexample:
  "green_follows (setup_dozy False None None power_on) \<and>
   \<not> lState (happenings flashing (setup_dozy False None None power_on)) \<and>
   \<not> ledGreenPin (happenings flashing (setup_dozy False None None power_on)) \<and>
   \<not> green_follows (happenings flashing (setup_dozy False None None power_on))"
proof -
  have e: "happenings flashing (setup_dozy False None None power_on) =
      loop ((idle False True 2100)\<lparr>otaBlocks := 2\<rparr>) updating"
    by (simp add: flashing_def updating_def online_def booted_def)
  have "\<not> lState (loop ((idle False True 2100)\<lparr>otaBlocks := 2\<rparr>) updating)"
    "\<not> ledGreenPin (loop ((idle False True 2100)\<lparr>otaBlocks := 2\<rparr>) updating)"
    unfolding updating_eq by (simp_all add: op_defs eval_nat_numeral)
  then show ?thesis
    by (simp add: e green_follows_def follows_setup [unfolded green_follows_def])
qed


section \<open>The order of work within one pass of \<open>loop\<close>\<close>

lemma emitsI: "trace s' = trace s @ es \<Longrightarrow> list_all P es \<Longrightarrow> emits P s s'"
  by (simp add: emits_def added_def)

lemma emits_same: "trace s' = trace s \<Longrightarrow> emits P s s'"
  by (simp add: emits_def added_def)

lemma emits_trans: "emits P s s' \<Longrightarrow> emits P s' s'' \<Longrightarrow> emits P s s''"
proof -
  assume a: "emits P s s'" and b: "emits P s' s''"
  from a b have "trace s'' = trace s @ (added s s' @ added s' s'')"
    by (simp add: emits_def)
  moreover from a b have "list_all P (added s s' @ added s' s'')"
    by (simp add: emits_def)
  ultimately show ?thesis by (rule emitsI)
qed

lemma emits_added:
  assumes "emits P s s'" "emits Q s' s''"
  shows "trace s'' = trace s @ added s s' @ added s' s''"
    and "added s s'' = added s s' @ added s' s''"
proof -
  from assms show t: "trace s'' = trace s @ added s s' @ added s' s''"
    by (simp add: emits_def)
  then show "added s s'' = added s s' @ added s' s''"
    by (rule added_append)
qed

lemma emits_mqttCommunicate:
  "switch_event = P \<or> session_event = P \<Longrightarrow> emits P s (mqttCommunicate s)"
  by (rule emitsI [OF mqttCommunicate_trace]) auto

lemma emits_enableL: "switch_event = P \<or> session_event = P \<Longrightarrow> emits P s (enableL s)"
  by (rule emitsI [OF enableL_effect(5)]) auto

lemma emits_disableL: "switch_event = P \<or> session_event = P \<Longrightarrow> emits P s (disableL s)"
  by (rule emitsI [OF disableL_effect(5)]) auto

lemma emits_startWifiManager:
  "switch_event = P \<or> session_event = P \<Longrightarrow> emits P s (startWifiManager True cfg a s)"
  by (rule emitsI [OF startWifiManager_onDemand(4)]) (auto split: option.splits)

lemma emits_switchAction: "emits switch_event s (switchAction s)"
proof -
  let ?s = "s\<lparr>gpioTrigger := True\<rparr>"
  have s: "emits switch_event s ?s" by (simp add: emits_same)
  have e: "emits switch_event ?s (enableL ?s)" "emits switch_event ?s (disableL ?s)"
    "emits switch_event ?s (mqttCommunicate ?s)"
    "emits switch_event (enableL ?s) (mqttCommunicate (enableL ?s))"
    "emits switch_event (disableL ?s) (mqttCommunicate (disableL ?s))"
    by (simp_all add: emits_enableL emits_disableL emits_mqttCommunicate)
  show ?thesis
    unfolding switchAction_def Let_def
    using s e by (auto intro: emits_trans)
qed

lemma emits_gestureAction: "emits switch_event s (gestureAction t1 a t2 s)"
  by (rule emitsI [OF gestureAction_trace]) (auto split: option.splits)

lemma emits_gpioLoop: "emits switch_event s (gpioLoop sw t1 a t2 s)"
proof (cases "sChanged sw s")
  case True
  have "emits switch_event s (s\<lparr>sState := sw\<rparr>)" by (simp add: emits_same)
  then have "emits switch_event s (switchAction (s\<lparr>sState := sw\<rparr>))"
    using emits_switchAction by (rule emits_trans)
  then have "emits switch_event s (gestureAction t1 a t2 (switchAction (s\<lparr>sState := sw\<rparr>)))"
    using emits_gestureAction by (rule emits_trans)
  with True show ?thesis by (simp add: gpioLoop_changed)
next
  case False
  then show ?thesis by (simp add: gpioLoop_unchanged emits_same)
qed

lemma wifimanagerLoop_trace:
  "trace (wifimanagerLoop sv t up s) =
     trace s @ WmProcess # (case sv of None \<Rightarrow> [] | Some v \<Rightarrow> [SaveConfig]) @
       (if wifiManagerSetupRunning s \<and> t - wifiManagerSetupStart s > 300000 then [StopConfigPortal] else []) @
       (if up \<and> offline s then [SetServer] else []) @ (if up then [MdnsLoop] else [])"
  by (auto simp add: wifimanagerLoop_def saveParamsCallback_def wifiManagerSetupStopped_def emit_def
        CONFIG_TIMEOUT_MS_def Let_def split: option.splits)

lemma emits_wifimanagerLoop: "emits portal_event s (wifimanagerLoop sv t up s)"
  by (rule emitsI [OF wifimanagerLoop_trace]) (auto split: option.splits)

lemma added_wifimanagerLoop:
  "added s (wifimanagerLoop sv t up s) =
     WmProcess # (case sv of None \<Rightarrow> [] | Some v \<Rightarrow> [SaveConfig]) @
       (if wifiManagerSetupRunning s \<and> t - wifiManagerSetupStart s > 300000 then [StopConfigPortal] else []) @
       (if up \<and> offline s then [SetServer] else []) @ (if up then [MdnsLoop] else [])"
  by (rule added_append [OF wifimanagerLoop_trace])

lemma emits_perform: "emits session_event s (perform a t act s)"
proof (cases act)
  case EnterProvisioning
  then show ?thesis by (simp add: emits_startWifiManager)
next
  case Reset
  then show ?thesis by (simp add: emits_same)
next
  case EnterUpdate
  have "trace (otaCommand t s) = trace s @ [TickerAttach 300, OtaBegin]"
    by (simp add: otaCommand_def emit_def)
  then have "emits session_event s (otaCommand t s)"
    by (rule emitsI) simp
  with EnterUpdate show ?thesis by simp
next
  case TurnOn
  then show ?thesis by (simp add: emits_enableL)
next
  case TurnOff
  then show ?thesis by (simp add: emits_disableL)
qed

lemma emits_mqttCallback: "emits session_event s (mqttCallback p a t s)"
  using mqttCallback_cases [of p a t s] by (auto simp: emits_perform emits_same)

lemma emits_fold_deliver: "emits session_event s (fold deliver ms s)"
proof (induction ms arbitrary: s)
  case Nil
  then show ?case by (simp add: emits_same)
next
  case (Cons m ms)
  have "emits session_event s (deliver m s)"
    by (simp add: deliver_def emits_mqttCallback split: prod.splits)
  then show ?case
    using Cons.IH [of "deliver m s"] by (simp add: emits_trans)
qed

lemma emits_clientLoop: "emits session_event s (clientLoop ms s)"
proof -
  have "trace (emit ClientLoop s) = trace s @ [ClientLoop]" by (simp add: emit_def)
  then have "emits session_event s (emit ClientLoop s)" by (rule emitsI) simp
  then show ?thesis
    unfolding clientLoop_def using emits_fold_deliver by (rule emits_trans)
qed

lemma emits_mqttReconnect: "emits session_event s (snd (mqttReconnect t1 t2 ok s))"
proof -
  have "trace (snd (mqttReconnect t1 t2 ok s)) =
      trace s @ (if \<not> mqttConnected s \<and> mqttConnectDelay s < t1 - mqttConnectAttempt s
                 then Connect # (if ok then [Subscribe] else []) else [])"
    by (simp add: mqttReconnect_def emit_def Let_def)
  then show ?thesis by (rule emitsI) simp
qed

lemma emits_mqttLoop: "emits session_event s (mqttLoop t1 t2 ok ms s)"
proof (cases "mqttConnected s")
  case True
  then show ?thesis by (simp add: mqttLoop_def emits_clientLoop)
next
  case False
  obtain b s' where r: "mqttReconnect t1 t2 ok s = (b, s')" by (cases "mqttReconnect t1 t2 ok s") auto
  then have a: "emits session_event s s'"
    using emits_mqttReconnect [of s t1 t2 ok] by simp
  show ?thesis
  proof (cases b)
    case True
    have "emits session_event s (clientLoop ms s')"
      using a emits_clientLoop by (rule emits_trans)
    with False r True show ?thesis by (simp add: mqttLoop_def)
  next
    case no: False
    with False r a show ?thesis by (simp add: mqttLoop_def)
  qed
qed

lemma list_all_not_mem: "list_all P es \<Longrightarrow> \<not> P e \<Longrightarrow> e \<notin> set es"
  by (auto simp: list_all_iff)



text \<open>
  Claim C8, as amended. Outside update mode a pass of \<open>loop\<close> calls, in this order:
  what \<open>gpioLoop\<close> calls (switch input), what \<open>wifimanagerLoop\<close> calls (the
  provisioning service with its timeout check, \<open>stopConfigPortal\<close> exactly when the
  timeout has expired), what \<open>mqttLoop\<close> calls when the device is online (the
  connection to the broker and the commands), the delay, and last \<open>ESP.restart\<close>,
  exactly when a restart was requested by the end of the pass. In update mode a pass
  calls \<open>ArduinoOTA.handle\<close> and then \<open>ESP.restart\<close>, exactly when a restart was pending
  or the update timeout has expired. \<open>ESP.restart\<close> is never called before the other
  work of the pass is done.
\<close>

theorem tick_order:
  "(\<not> otaRunning s \<longrightarrow>
      (let s1 = gpioLoop (swLow i) (tGesture i) (apcbGesture i) (tStamp i) s;
           s2 = wifimanagerLoop (saved i) (tSetup i) (wifiUp i) s1;
           s3 = (if \<not> offline s2 then mqttLoop (tRec1 i) (tRec2 i) (connectOk i) (msgs i) s2 else s2)
       in added s (loop i s) =
            added s s1 @ added s1 s2 @ added s2 s3 @ [DelayMs LOOP_DELAY_MS] @
            (if restart s3 then [EspRestart] else []) \<and>
          list_all switch_event (added s s1) \<and>
          list_all portal_event (added s1 s2) \<and>
          list_all session_event (added s2 s3) \<and>
          EspRestart \<notin> set (added s s1 @ added s1 s2 @ added s2 s3) \<and>
          (StopConfigPortal \<in> set (added s1 s2)) =
            (wifiManagerSetupRunning s1 \<and> tSetup i - wifiManagerSetupStart s1 > 300000))) \<and>
   (otaRunning s \<longrightarrow>
      added s (loop i s) =
        OtaHandle # (if restart s \<or> tOta i - otaStart s > 300000 then [EspRestart] else []))"
proof (intro conjI impI)
  assume n: "\<not> otaRunning s"
  define s1 where "s1 = gpioLoop (swLow i) (tGesture i) (apcbGesture i) (tStamp i) s"
  define s2 where "s2 = wifimanagerLoop (saved i) (tSetup i) (wifiUp i) s1"
  define s3 where "s3 = (if \<not> offline s2 then mqttLoop (tRec1 i) (tRec2 i) (connectOk i) (msgs i) s2 else s2)"
  have e1: "emits switch_event s s1"
    by (simp add: s1_def emits_gpioLoop)
  have e2: "emits portal_event s1 s2"
    by (simp add: s2_def emits_wifimanagerLoop)
  have e3: "emits session_event s2 s3"
    by (simp add: s3_def emits_mqttLoop emits_same)
  have t2: "trace s2 = trace s @ added s s1 @ added s1 s2"
    using e1 e2 by (rule emits_added)
  have t3: "trace s3 = trace s @ added s s1 @ added s1 s2 @ added s2 s3"
    using e3 t2 by (simp add: emits_def)
  have l: "loop i s = (if restart s3 then emit EspRestart (emit (DelayMs LOOP_DELAY_MS) s3)
                       else emit (DelayMs LOOP_DELAY_MS) s3)"
    using n by (simp add: loop_def normalWork_def s1_def s2_def s3_def emit_def Let_def)
  have "trace (loop i s) = trace s @ (added s s1 @ added s1 s2 @ added s2 s3 @ [DelayMs LOOP_DELAY_MS] @
            (if restart s3 then [EspRestart] else []))"
    by (simp add: l t3 emit_def)
  then have a: "added s (loop i s) =
            added s s1 @ added s1 s2 @ added s2 s3 @ [DelayMs LOOP_DELAY_MS] @
            (if restart s3 then [EspRestart] else [])"
    by (rule added_append)
  have c: "list_all switch_event (added s s1)" "list_all portal_event (added s1 s2)"
    "list_all session_event (added s2 s3)"
    using e1 e2 e3 by (simp_all add: emits_def)
  have r: "EspRestart \<notin> set (added s s1 @ added s1 s2 @ added s2 s3)"
    using c by (simp add: list_all_not_mem)
  have p: "(StopConfigPortal \<in> set (added s1 s2)) =
            (wifiManagerSetupRunning s1 \<and> tSetup i - wifiManagerSetupStart s1 > 300000)"
    by (auto simp add: s2_def added_wifimanagerLoop split: option.splits)
  show "(let s1 = gpioLoop (swLow i) (tGesture i) (apcbGesture i) (tStamp i) s;
           s2 = wifimanagerLoop (saved i) (tSetup i) (wifiUp i) s1;
           s3 = (if \<not> offline s2 then mqttLoop (tRec1 i) (tRec2 i) (connectOk i) (msgs i) s2 else s2)
       in added s (loop i s) =
            added s s1 @ added s1 s2 @ added s2 s3 @ [DelayMs LOOP_DELAY_MS] @
            (if restart s3 then [EspRestart] else []) \<and>
          list_all switch_event (added s s1) \<and>
          list_all portal_event (added s1 s2) \<and>
          list_all session_event (added s2 s3) \<and>
          EspRestart \<notin> set (added s s1 @ added s1 s2 @ added s2 s3) \<and>
          (StopConfigPortal \<in> set (added s1 s2)) =
            (wifiManagerSetupRunning s1 \<and> tSetup i - wifiManagerSetupStart s1 > 300000))"
    unfolding Let_def s1_def [symmetric] s2_def [symmetric] s3_def [symmetric]
    using a c r p by blast
next
  assume "otaRunning s"
  then show "added s (loop i s) =
        OtaHandle # (if restart s \<or> tOta i - otaStart s > 300000 then [EspRestart] else [])"
    by (simp add: loop_def otaWork_def otaHandle_def emit_def added_def OTA_TIMEOUT_MS_def Let_def)
qed

theorem tick_order_witness:
  "\<not> otaRunning online \<and>
   added online (gpioLoop True 1100 None 1100 online) =
     [MqttCommunicate True True, Publish ''1.'', MqttCommunicate True False, Publish ''1''] \<and>
   added online (loop (idle True True 1100) online) =
     [MqttCommunicate True True, Publish ''1.'', MqttCommunicate True False, Publish ''1'',
      WmProcess, MdnsLoop, ClientLoop, DelayMs 10] \<and>
   otaRunning updating \<and>
   added updating (loop (idle False True 302001) updating) = [OtaHandle, EspRestart]"
proof -
  have n: "\<not> otaRunning online" "otaRunning updating" "\<not> restart updating" "otaStart updating = 2000"
    by (simp_all add: online_eq updating_eq)
  have g: "added online (gpioLoop True 1100 None 1100 online) =
     [MqttCommunicate True True, Publish ''1.'', MqttCommunicate True False, Publish ''1'']"
    unfolding online_eq by (simp add: op_defs added_def)
  have l: "added online (loop (idle True True 1100) online) =
     [MqttCommunicate True True, Publish ''1.'', MqttCommunicate True False, Publish ''1'',
      WmProcess, MdnsLoop, ClientLoop, DelayMs 10]"
    unfolding online_eq by (simp add: op_defs added_def)
  have u: "added updating (loop (idle False True 302001) updating) = [OtaHandle, EspRestart]"
    using tick_order [of updating "idle False True 302001"] n by (simp add: idle_def)
  show ?thesis using n g l u tick_order [of online "idle True True 1100"] by simp
qed

text \<open>
  The claim as it was stated fails: in a pass in which the provisioning timeout
  expires while the client is connected, \<open>stopConfigPortal\<close>, the outcome of the
  timeout check, is called before \<open>mqttClient.loop\<close>, the service of the connection.
\<close>

theorem tick_order_counterexample:
  "wifiManagerSetupRunning provisioning \<and> \<not> otaRunning provisioning \<and>
   \<not> offline provisioning \<and> mqttConnected provisioning \<and>
   added provisioning (loop (idle False True 302001) provisioning) =
     [WmProcess, StopConfigPortal, MdnsLoop, ClientLoop, DelayMs 10, EspRestart]"
  unfolding provisioning_eq
  by (simp add: op_defs added_def)


end
